theory Spec2Isabelle
  imports Main "HOL-Library.Word" "HOL-Library.Log_Nat" "HOL-Library.Sublist"
begin

section \<open>JavaScript numbers (IEEE 754 binary64)\<close>

text \<open>
  A JavaScript \<^verbatim>\<open>number\<close> is an IEEE 754 double. It is modelled by its class, its
  sign (\<open>True\<close> is negative, so that \<open>-0\<close> is a value) and, when finite, its magnitude
  as an exact real. Every arithmetic operation computes the exact result and rounds it to
  the nearest double, ties to even.
\<close>

datatype jsnum = NaN | Infinity bool | Finite bool real

text \<open>The binary exponent \<open>e\<close> of a positive magnitude: \<open>2 ^ e \<le> q < 2 ^ (e + 1)\<close>.\<close>

definition expo :: "real \<Rightarrow> int" where
  "expo q = (if 1 \<le> q then bitlen \<lfloor>q\<rfloor> - 1 else - bitlen (\<lceil>1 / q\<rceil> - 1))"

text \<open>Rounding to the nearest integer, a tie going to the even neighbour.\<close>

definition round_half_even :: "real \<Rightarrow> int" where
  "round_half_even x =
     (let n = \<lfloor>x\<rfloor>; d = x - of_int n
      in if d < 1 / 2 then n else if 1 / 2 < d then n + 1 else if even n then n else n + 1)"

text \<open>
  Rounding a magnitude to binary64: 53 significant bits in the normal range, the fixed
  spacing \<open>2 ^ -1074\<close> below \<open>2 ^ -1022\<close>, overflow to infinity from \<open>2 ^ 1024\<close>.
\<close>

definition round_binary64 :: "bool \<Rightarrow> real \<Rightarrow> jsnum" where
  "round_binary64 s q =
     (if q = 0 then Finite s 0
      else let e = max (expo q) (- 1022);
               u = 2 powi (e - 52);
               r = of_int (round_half_even (q / u)) * u
           in if 2 ^ 1024 \<le> r then Infinity s else Finite s r)"

definition with_sign :: "bool \<Rightarrow> real \<Rightarrow> real" where
  "with_sign s q = (if s then - q else q)"

text \<open>A non-negative decimal literal of the source text, such as \<^verbatim>\<open>0.01\<close>.\<close>

definition js_lit :: "real \<Rightarrow> jsnum" where
  "js_lit q = round_binary64 False q"

text \<open>The operator \<^verbatim>\<open>/\<close>.\<close>

fun js_div :: "jsnum \<Rightarrow> jsnum \<Rightarrow> jsnum" where
  "js_div NaN b = NaN"
| "js_div a NaN = NaN"
| "js_div (Infinity s) (Infinity t) = NaN"
| "js_div (Infinity s) (Finite t y) = Infinity (s \<noteq> t)"
| "js_div (Finite s x) (Infinity t) = Finite (s \<noteq> t) 0"
| "js_div (Finite s x) (Finite t y) =
     (if y = 0 then (if x = 0 then NaN else Infinity (s \<noteq> t))
      else round_binary64 (s \<noteq> t) (x / y))"

text \<open>The operator \<^verbatim>\<open>-\<close>. An exact zero difference is \<open>+0\<close>, except \<open>-0 - +0 = -0\<close>.\<close>

fun js_sub :: "jsnum \<Rightarrow> jsnum \<Rightarrow> jsnum" where
  "js_sub NaN b = NaN"
| "js_sub a NaN = NaN"
| "js_sub (Infinity s) (Infinity t) = (if s = t then NaN else Infinity s)"
| "js_sub (Infinity s) (Finite t y) = Infinity s"
| "js_sub (Finite s x) (Infinity t) = Infinity (\<not> t)"
| "js_sub (Finite s x) (Finite t y) =
     (let v = with_sign s x - with_sign t y
      in if v = 0 then Finite (s \<and> \<not> t) 0 else round_binary64 (v < 0) \<bar>v\<bar>)"

text \<open>\<^verbatim>\<open>Math.abs\<close>.\<close>

fun js_abs :: "jsnum \<Rightarrow> jsnum" where
  "js_abs NaN = NaN"
| "js_abs (Infinity s) = Infinity False"
| "js_abs (Finite s x) = Finite False \<bar>x\<bar>"

text \<open>The operator \<^verbatim>\<open><\<close>: false whenever an operand is \<open>NaN\<close>.\<close>

fun js_lt :: "jsnum \<Rightarrow> jsnum \<Rightarrow> bool" where
  "js_lt NaN b = False"
| "js_lt a NaN = False"
| "js_lt (Infinity s) (Infinity t) = (s \<and> \<not> t)"
| "js_lt (Infinity s) (Finite t y) = s"
| "js_lt (Finite s x) (Infinity t) = (\<not> t)"
| "js_lt (Finite s x) (Finite t y) = (with_sign s x < with_sign t y)"

section \<open>Aspect classification (\<^verbatim>\<open>getVideoAspectRatio\<close>, lines 104 to 112)\<close>

datatype aspect = Portrait | Landscape | Other

fun aspect_name :: "aspect \<Rightarrow> string" where
  "aspect_name Portrait = ''portrait''"
| "aspect_name Landscape = ''landscape''"
| "aspect_name Other = ''other''"

definition portrait :: jsnum where
  "portrait = js_div (js_lit 16) (js_lit 9)"

definition landscape :: jsnum where
  "landscape = js_div (js_lit 9) (js_lit 16)"

definition tolerance :: jsnum where
  "tolerance = js_lit (1 / 100)"

text \<open>\<^verbatim>\<open>Math.abs(aspectRatio - c) < tolerance\<close>.\<close>

definition within_tolerance :: "jsnum \<Rightarrow> jsnum \<Rightarrow> bool" where
  "within_tolerance aspectRatio c = js_lt (js_abs (js_sub aspectRatio c)) tolerance"

text \<open>Lines 106 to 112: the class of an aspect ratio.\<close>

definition classify :: "jsnum \<Rightarrow> aspect" where
  "classify aspectRatio =
     (if within_tolerance aspectRatio portrait then Portrait
      else if within_tolerance aspectRatio landscape then Landscape
      else Other)"

text \<open>
  The same classification with the two membership tests in the other order. It is not in
  the source: it only serves to state that the order of the tests does not matter.
\<close>

definition classify_landscape_first :: "jsnum \<Rightarrow> aspect" where
  "classify_landscape_first aspectRatio =
     (if within_tolerance aspectRatio landscape then Landscape
      else if within_tolerance aspectRatio portrait then Portrait
      else Other)"

section \<open>Errors and parsed JSON\<close>

text \<open>
  Every \<^verbatim>\<open>throw\<close> of the source is an error value. \<open>Error\<close> is the plain
  \<^verbatim>\<open>new Error(message)\<close>; \<open>SyntaxError\<close> is what \<^verbatim>\<open>JSON.parse\<close> throws and
  \<open>TypeError\<close> what a property read of \<^verbatim>\<open>undefined\<close> or \<^verbatim>\<open>null\<close> throws;
  \<open>Thrown\<close> is an exception raised by a collaborator outside the file (authentication,
  request body, file system, process spawn, object store, database).
\<close>

datatype error =
    BadRequestError string
  | NotFoundError string
  | UserForbiddenError string
  | Error string
  | SyntaxError
  | TypeError
  | Thrown string

text \<open>
  A value returned by \<^verbatim>\<open>JSON.parse\<close>. An object is its list of own properties;
  \<^verbatim>\<open>undefined\<close> is \<open>None\<close> of \<open>json option\<close>.
\<close>

datatype json =
    JNull
  | JBool bool
  | JNumber jsnum
  | JString string
  | JArray "json list"
  | JObject "(string \<times> json) list"

text \<open>\<^verbatim>\<open>typeof v === "object"\<close>: true of \<^verbatim>\<open>null\<close>, arrays and objects.\<close>

fun typeof_object :: "json option \<Rightarrow> bool" where
  "typeof_object (Some JNull) = True"
| "typeof_object (Some (JArray xs)) = True"
| "typeof_object (Some (JObject kvs)) = True"
| "typeof_object v = False"

text \<open>
  Reading one of the named properties \<^verbatim>\<open>streams\<close>, \<^verbatim>\<open>width\<close>, \<^verbatim>\<open>height\<close>
  of a value that is neither \<^verbatim>\<open>null\<close> nor \<^verbatim>\<open>undefined\<close>: only an object can
  have it.
\<close>

fun get_prop :: "json \<Rightarrow> string \<Rightarrow> json option" where
  "get_prop (JObject kvs) k = map_of kvs k"
| "get_prop v k = None"

text \<open>\<^verbatim>\<open>v[0]\<close> on a value whose \<^verbatim>\<open>typeof\<close> is \<^verbatim>\<open>"object"\<close> and that is not \<^verbatim>\<open>null\<close>.\<close>

fun index0 :: "json \<Rightarrow> json option" where
  "index0 (JArray []) = None"
| "index0 (JArray (x # xs)) = Some x"
| "index0 (JObject kvs) = map_of kvs ''0''"
| "index0 v = None"

section \<open>The world the handler acts on\<close>

type_synonym bytes = "8 word list"

text \<open>Modelled from the spec: the type \<^verbatim>\<open>Video\<close> of \<^verbatim>\<open>../db/videos\<close>, which is not among
  the sources; a record exposes its id, its owner and the mutable artifact URL.\<close>

record video =
  video_id :: string
  userID :: string
  videoURL :: "string option"

datatype event =
    FileWritten string
  | ProcessSpawned "string list"
  | FileDeleted string
  | ObjectPut string
  | RecordUpdated video

text \<open>
  The assets directory and every other local file (\<open>files\<close>), the object store
  (\<open>s3\<close>: key to content and content type), the metadata store (\<open>db\<close>), and the
  effects performed so far, in order (\<open>trace\<close>).
\<close>

record world =
  files :: "string \<rightharpoonup> bytes"
  s3 :: "string \<rightharpoonup> bytes \<times> string"
  db :: "string \<rightharpoonup> video"
  trace :: "event list"

text \<open>What an external process did: it could not be spawned (the message of the
  exception), or it exited with a code, its standard output and its standard error.\<close>

datatype proc_exit = SpawnFailed string | Exited int string string

text \<open>
  The outcomes of everything the handler awaits from outside, one field for each:
  \<open>auth\<close> is \<^verbatim>\<open>getBearerToken\<close> followed by \<^verbatim>\<open>validateJWT\<close>; \<open>randomBytes\<close> is
  \<^verbatim>\<open>crypto.randomBytes\<close>; \<open>ffmpeg_output\<close> is the file \<^verbatim>\<open>ffmpeg\<close> left at its output
  path, if any; \<open>ffprobe_json\<close> is \<^verbatim>\<open>JSON.parse\<close> of the standard output of
  \<^verbatim>\<open>ffprobe\<close>, \<open>None\<close> when it throws; the \<open>_error\<close> fields are the message of the
  exception of \<^verbatim>\<open>Bun.write\<close>, of the S3 write and of \<^verbatim>\<open>updateVideo\<close>, \<open>None\<close> when
  they succeed.
\<close>

record env =
  auth :: "error + string"
  randomBytes :: "nat \<Rightarrow> bytes"
  stage_error :: "string option"
  ffmpeg_exit :: proc_exit
  ffmpeg_output :: "bytes option"
  ffprobe_exit :: proc_exit
  ffprobe_json :: "json option"
  s3_error :: "string option"
  updateVideo_error :: "string option"

record cfg =
  assetsRoot :: string
  s3CfDistribution :: string

record upload =
  file_type :: string
  file_bytes :: bytes

text \<open>\<^verbatim>\<open>File.size\<close>: the length of the content in bytes.\<close>

definition file_size :: "upload \<Rightarrow> nat" where
  "file_size f = length (file_bytes f)"

datatype form_entry = FormString string | FormFile upload

text \<open>The route parameter \<^verbatim>\<open>videoId\<close> and the outcome of \<^verbatim>\<open>req.formData()\<close>.\<close>

record request =
  videoId :: "string option"
  formData :: "error + (string \<rightharpoonup> form_entry)"

datatype response = Response nat video

subsection \<open>File system, object store and metadata store\<close>

text \<open>\<^verbatim>\<open>Bun.write(path, bytes)\<close>: a failed write leaves no file.\<close>

definition bun_write :: "string option \<Rightarrow> string \<Rightarrow> bytes \<Rightarrow> world \<Rightarrow> error + world" where
  "bun_write failure path bs w =
     (case failure of
        Some msg \<Rightarrow> Inl (Thrown msg)
      | None \<Rightarrow> Inr (w\<lparr>files := (files w)(path \<mapsto> bs), trace := trace w @ [FileWritten path]\<rparr>))"

text \<open>\<^verbatim>\<open>Bun.file(path).delete()\<close>: throws when there is no such file.\<close>

definition bun_delete :: "string \<Rightarrow> world \<Rightarrow> error + world" where
  "bun_delete path w =
     (if path \<in> dom (files w)
      then Inr (w\<lparr>files := (files w)(path := None), trace := trace w @ [FileDeleted path]\<rparr>)
      else Inl (Thrown ''ENOENT''))"

text \<open>\<^verbatim>\<open>cfg.s3Client.file(key).write(Bun.file(path), {type})\<close>.\<close>

definition s3_write :: "string option \<Rightarrow> string \<Rightarrow> string \<Rightarrow> string \<Rightarrow> world \<Rightarrow> error + world" where
  "s3_write failure key path content_type w =
     (case files w path of
        None \<Rightarrow> Inl (Thrown ''ENOENT'')
      | Some bs \<Rightarrow>
          (case failure of
             Some msg \<Rightarrow> Inl (Thrown msg)
           | None \<Rightarrow> Inr (w\<lparr>s3 := (s3 w)(key \<mapsto> (bs, content_type)),
                              trace := trace w @ [ObjectPut key]\<rparr>)))"

text \<open>Modelled from the spec: \<^verbatim>\<open>getVideo\<close> of \<^verbatim>\<open>../db/videos\<close>, which is not among
  the sources; the metadata store's \<open>fetch(id) -> Record | absent\<close>.\<close>

definition getVideo :: "world \<Rightarrow> string \<Rightarrow> video option" where
  "getVideo w vid = db w vid"

text \<open>Modelled from the spec: \<^verbatim>\<open>updateVideo\<close> of \<^verbatim>\<open>../db/videos\<close>, which is not
  among the sources; the metadata store's \<open>update(Record) -> ok | failure\<close> replaces the
  record stored under the record's id.\<close>

definition updateVideo :: "string option \<Rightarrow> video \<Rightarrow> world \<Rightarrow> error + world" where
  "updateVideo failure v w =
     (case failure of
        Some msg \<Rightarrow> Inl (Thrown msg)
      | None \<Rightarrow> Inr (w\<lparr>db := (db w)(video_id v \<mapsto> v), trace := trace w @ [RecordUpdated v]\<rparr>))"

subsection \<open>Strings and paths\<close>

text \<open>\<^verbatim>\<open>s.indexOf(c)\<close> for a one-character \<^verbatim>\<open>c\<close>: the first position, or \<open>-1\<close>.\<close>

fun indexOf :: "string \<Rightarrow> char \<Rightarrow> int" where
  "indexOf [] c = - 1"
| "indexOf (x # xs) c =
     (if x = c then 0 else (let i = indexOf xs c in if i < 0 then - 1 else i + 1))"

text \<open>\<^verbatim>\<open>s.slice(start)\<close>: a negative start counts from the end.\<close>

definition slice :: "string \<Rightarrow> int \<Rightarrow> string" where
  "slice s start =
     (if start < 0 then drop (nat (int (length s) + start)) s else drop (nat start) s)"

text \<open>
  \<^verbatim>\<open>path.join\<close> of \<^verbatim>\<open>node:path\<close> on a POSIX system. The non-empty arguments are
  joined with \<open>/\<close> and the result is normalised: \<open>segments\<close> cuts a path at every
  \<open>/\<close>; \<open>normalizeString\<close> walks the segments from the left, keeping the kept ones in
  reverse, drops the empty ones and \<open>.\<close>, and lets \<open>..\<close> take back the segment before
  it (above the start of a relative path it stays, above the root it is dropped);
  \<open>path_normalize\<close> puts the leading and the trailing \<open>/\<close> back and returns \<open>.\<close> for
  an empty result.
\<close>

fun segments :: "string \<Rightarrow> string list" where
  "segments [] = [[]]"
| "segments (x # xs) =
     (if x = CHR ''/'' then [] # segments xs
      else (case segments xs of [] \<Rightarrow> [[x]] | s # ss \<Rightarrow> (x # s) # ss))"

fun normalizeString :: "bool \<Rightarrow> string list \<Rightarrow> string list \<Rightarrow> string list" where
  "normalizeString allowAboveRoot res [] = rev res"
| "normalizeString allowAboveRoot res (s # ss) =
     (if s = [] \<or> s = ''.'' then normalizeString allowAboveRoot res ss
      else if s = ''..'' then
        (if res \<noteq> [] \<and> hd res \<noteq> ''..'' then normalizeString allowAboveRoot (tl res) ss
         else if allowAboveRoot then normalizeString allowAboveRoot (''..'' # res) ss
         else normalizeString allowAboveRoot res ss)
      else normalizeString allowAboveRoot (s # res) ss)"

fun join_segments :: "string list \<Rightarrow> string" where
  "join_segments [] = []"
| "join_segments [s] = s"
| "join_segments (s # t # ss) = s @ ''/'' @ join_segments (t # ss)"

definition path_normalize :: "string \<Rightarrow> string" where
  "path_normalize path =
     (if path = [] then ''.''
      else let isAbsolute = (hd path = CHR ''/'');
               trailingSeparator = (last path = CHR ''/'');
               p = join_segments (normalizeString (\<not> isAbsolute) [] (segments path))
           in if p = [] then (if isAbsolute then ''/'' else if trailingSeparator then ''./'' else ''.'')
              else (if isAbsolute then ''/'' else []) @ p @
                   (if trailingSeparator then ''/'' else []))"

definition path_join :: "string \<Rightarrow> string \<Rightarrow> string" where
  "path_join dir name =
     (if dir = [] \<and> name = [] then ''.''
      else if dir = [] then path_normalize name
      else if name = [] then path_normalize dir
      else path_normalize (dir @ ''/'' @ name))"

text \<open>\<^verbatim>\<open>Buffer.toString("base64url")\<close>: six bits a character, no padding.\<close>

definition base64url_alphabet :: string where
  "base64url_alphabet = ''ABCDEFGHIJKLMNOPQRSTUVWXYZabcdefghijklmnopqrstuvwxyz0123456789-_''"

definition digit64 :: "nat \<Rightarrow> char" where
  "digit64 k = base64url_alphabet ! k"

fun base64url :: "bytes \<Rightarrow> string" where
  "base64url (a # b # c # rest) =
     (let n = unat a * 65536 + unat b * 256 + unat c
      in [digit64 (n div 262144), digit64 (n div 4096 mod 64), digit64 (n div 64 mod 64),
          digit64 (n mod 64)]) @ base64url rest"
| "base64url [a, b] =
     (let n = unat a * 1024 + unat b * 4
      in [digit64 (n div 4096), digit64 (n div 64 mod 64), digit64 (n mod 64)])"
| "base64url [a] = (let n = unat a * 16 in [digit64 (n div 64), digit64 (n mod 64)])"
| "base64url [] = []"

section \<open>\<^verbatim>\<open>processVideoForFastStart\<close> (lines 115 to 132)\<close>

definition ffmpeg_args :: "string \<Rightarrow> string \<Rightarrow> string list" where
  "ffmpeg_args inputFilePath outputFilePath =
     [''ffmpeg'', ''-i'', inputFilePath, ''-movflags'', ''faststart'', ''-map_metadata'',
      ''0'', ''-codec'', ''copy'', ''-f'', ''mp4'', outputFilePath]"

text \<open>\<^verbatim>\<open>Bun.spawn\<close> of \<^verbatim>\<open>ffmpeg\<close>, awaited: the process has run and has left
  what it left at its output path.\<close>

definition spawn_ffmpeg :: "env \<Rightarrow> string \<Rightarrow> string \<Rightarrow> world \<Rightarrow> world" where
  "spawn_ffmpeg e inputFilePath outputFilePath w =
     w\<lparr>files := (case ffmpeg_output e of
                    None \<Rightarrow> files w
                  | Some bs \<Rightarrow> (files w)(outputFilePath \<mapsto> bs)),
       trace := trace w @
                ProcessSpawned (ffmpeg_args inputFilePath outputFilePath) #
                (case ffmpeg_output e of None \<Rightarrow> [] | Some bs \<Rightarrow> [FileWritten outputFilePath])\<rparr>"

definition processVideoForFastStart :: "env \<Rightarrow> string \<Rightarrow> world \<Rightarrow> (error + string) \<times> world" where
  "processVideoForFastStart e inputFilePath w =
     (let outputFilePath = inputFilePath @ ''.processed''
      in case ffmpeg_exit e of
           SpawnFailed msg \<Rightarrow> (Inl (Thrown msg), w)
         | Exited exitCode out errorText \<Rightarrow>
             (if exitCode \<noteq> 0
              then (Inl (Error (''ffmpeg failed: '' @ errorText)),
                    spawn_ffmpeg e inputFilePath outputFilePath w)
              else (Inr outputFilePath, spawn_ffmpeg e inputFilePath outputFilePath w)))"

section \<open>\<^verbatim>\<open>getVideoAspectRatio\<close> (lines 75 to 113)\<close>

definition ffprobe_args :: "string \<Rightarrow> string list" where
  "ffprobe_args filePath =
     [''ffprobe'', ''-v'', ''error'', ''-select_streams'', ''v:0'', ''-show_entries'',
      ''stream=width,height'', ''-of'', ''json'', filePath]"

definition format_error :: error where
  "format_error = Error ''Video metadata JSON doesn't match expected format.''"

text \<open>Lines 93 to 112: from the parsed output to the class.\<close>

definition aspect_of_output :: "json option \<Rightarrow> error + aspect" where
  "aspect_of_output parsed =
     (case parsed of
        None \<Rightarrow> Inl SyntaxError
      | Some parsedOutputText \<Rightarrow>
          if \<not> typeof_object (Some parsedOutputText) then Inl format_error
          else if parsedOutputText = JNull then Inl format_error
          else if \<not> typeof_object (get_prop parsedOutputText ''streams'') then Inl format_error
          else (case get_prop parsedOutputText ''streams'' of
                  None \<Rightarrow> Inl format_error
                | Some JNull \<Rightarrow> Inl TypeError
                | Some streams \<Rightarrow>
                    (case index0 streams of
                       None \<Rightarrow> Inl TypeError
                     | Some JNull \<Rightarrow> Inl TypeError
                     | Some streamZero \<Rightarrow>
                         (case get_prop streamZero ''width'' of
                            Some (JNumber width) \<Rightarrow>
                              (case get_prop streamZero ''height'' of
                                 Some (JNumber height) \<Rightarrow>
                                   Inr (classify (js_div height width))
                               | _ \<Rightarrow> Inl format_error)
                          | _ \<Rightarrow> Inl format_error))))"

definition getVideoAspectRatio :: "env \<Rightarrow> string \<Rightarrow> world \<Rightarrow> (error + aspect) \<times> world" where
  "getVideoAspectRatio e filePath w =
     (case ffprobe_exit e of
        SpawnFailed msg \<Rightarrow> (Inl (Thrown msg), w)
      | Exited exitCode out errorText \<Rightarrow>
          (let w' = w\<lparr>trace := trace w @ [ProcessSpawned (ffprobe_args filePath)]\<rparr>
           in if exitCode \<noteq> 0 then (Inl (Error errorText), w')
              else (aspect_of_output (ffprobe_json e), w')))"

section \<open>\<^verbatim>\<open>handlerUploadVideo\<close> (lines 11 to 73)\<close>

text \<open>\<^verbatim>\<open>1 << 30\<close>: a shift of 32-bit integers, read as a signed value.\<close>

definition MAX_UPLOAD_SIZE :: int where
  "MAX_UPLOAD_SIZE = sint (push_bit 30 (1 :: 32 word))"

text \<open>Line 43: the name of the staged file.\<close>

definition staged_name :: "env \<Rightarrow> upload \<Rightarrow> string" where
  "staged_name e video =
     base64url (randomBytes e 32) @ ''.'' @
     slice (file_type video) (indexOf (file_type video) CHR ''/'' + 1)"

text \<open>Lines 44 and 116: the paths of the raw and of the processed staged file.\<close>

definition filePath :: "cfg \<Rightarrow> env \<Rightarrow> upload \<Rightarrow> string" where
  "filePath c e video = path_join (assetsRoot c) (staged_name e video)"

definition processedFilePath :: "cfg \<Rightarrow> env \<Rightarrow> upload \<Rightarrow> string" where
  "processedFilePath c e video = filePath c e video @ ''.processed''"

text \<open>Lines 42 to 72: staging, normalising, probing, publishing, committing.\<close>

definition upload_pipeline ::
  "cfg \<Rightarrow> env \<Rightarrow> video \<Rightarrow> upload \<Rightarrow> world \<Rightarrow> (error + response) \<times> world" where
  "upload_pipeline c e videoMetadata video w =
     (let fileName = staged_name e video
      in case bun_write (stage_error e) (filePath c e video) (file_bytes video) w of
           Inl err \<Rightarrow> (Inl err, w)
         | Inr w1 \<Rightarrow>
      (case processVideoForFastStart e (filePath c e video) w1 of
           (Inl err, w2) \<Rightarrow> (Inl err, w2)
         | (Inr processed, w2) \<Rightarrow>
      (case bun_delete (filePath c e video) w2 of
           Inl err \<Rightarrow> (Inl err, w2)
         | Inr w3 \<Rightarrow>
      (case getVideoAspectRatio e processed w3 of
           (Inl err, w4) \<Rightarrow> (Inl err, w4)
         | (Inr aspectRatio, w4) \<Rightarrow>
      (let fileNameWithAspectRatio = aspect_name aspectRatio @ ''/'' @ fileName
       in case s3_write (s3_error e) fileNameWithAspectRatio processed
                 (file_type video) w4 of
            Inl err \<Rightarrow> (Inl err, w4)
          | Inr w5 \<Rightarrow>
      (let updated = videoMetadata\<lparr>videoURL :=
                       Some (s3CfDistribution c @ ''/'' @ fileNameWithAspectRatio)\<rparr>
       in case updateVideo (updateVideo_error e) updated w5 of
            Inl err \<Rightarrow> (Inl err, w5)
          | Inr w6 \<Rightarrow>
      (case bun_delete processed w6 of
           Inl err \<Rightarrow> (Inl err, w6)
         | Inr w7 \<Rightarrow> (Inr (Response 200 updated), w7))))))))"

text \<open>Lines 14 to 40, then the pipeline.\<close>

definition handlerUploadVideo ::
  "cfg \<Rightarrow> request \<Rightarrow> env \<Rightarrow> world \<Rightarrow> (error + response) \<times> world" where
  "handlerUploadVideo c req e w =
     (case videoId req of
        None \<Rightarrow> (Inl (BadRequestError ''Invalid video ID''), w)
      | Some vid \<Rightarrow>
          if vid = [] then (Inl (BadRequestError ''Invalid video ID''), w)
          else (case auth e of
                  Inl err \<Rightarrow> (Inl err, w)
                | Inr uid \<Rightarrow>
          (case getVideo w vid of
                  None \<Rightarrow> (Inl (NotFoundError ''Video not found.''), w)
                | Some videoMetadata \<Rightarrow>
          if userID videoMetadata \<noteq> uid then (Inl (UserForbiddenError ''Forbidden.''), w)
          else (case formData req of
                  Inl err \<Rightarrow> (Inl err, w)
                | Inr form \<Rightarrow>
          (case form ''video'' of
                  None \<Rightarrow> (Inl (BadRequestError ''Thumbnail was not a File.''), w)
                | Some (FormString str) \<Rightarrow>
                    (Inl (BadRequestError ''Thumbnail was not a File.''), w)
                | Some (FormFile video) \<Rightarrow>
          if int (file_size video) > MAX_UPLOAD_SIZE
          then (Inl (BadRequestError ''Thumbnail file size is too big.''), w)
          else if file_type video \<noteq> ''video/mp4''
          then (Inl (BadRequestError ''Bad File Type.''), w)
          else upload_pipeline c e videoMetadata video w)))))"

text \<open>
  The path condition of line 42: the checks of lines 14 to 40 all pass, for the stored
  record \<open>v\<close> and the uploaded file \<open>f\<close>.
\<close>

definition accepted :: "request \<Rightarrow> env \<Rightarrow> world \<Rightarrow> video \<Rightarrow> upload \<Rightarrow> bool" where
  "accepted req e w v f =
     (case videoId req of
        None \<Rightarrow> False
      | Some vid \<Rightarrow>
          vid \<noteq> [] \<and> auth e = Inr (userID v) \<and> getVideo w vid = Some v \<and>
          (case formData req of
             Inl err \<Rightarrow> False
           | Inr form \<Rightarrow>
               form ''video'' = Some (FormFile f) \<and> int (file_size f) \<le> MAX_UPLOAD_SIZE \<and>
               file_type f = ''video/mp4''))"

section \<open>Worlds between the stages of the pipeline\<close>

text \<open>
  Names for what \<open>upload_pipeline\<close> computes on its way: the key and the updated record
  of lines 55 and 64, the content at the processed path once the normaliser has run, the
  events of the normaliser, and the world after each step (staged, normalised by
  \<^verbatim>\<open>ffmpeg\<close>, raw file deleted, probed, published, committed, processed file deleted).
  The lemma \<open>upload_pipeline_outcome\<close> below proves that these are the worlds the pipeline
  returns.
\<close>

definition object_key :: "env \<Rightarrow> upload \<Rightarrow> aspect \<Rightarrow> string" where
  "object_key e f a = aspect_name a @ ''/'' @ staged_name e f"

definition with_url :: "cfg \<Rightarrow> env \<Rightarrow> video \<Rightarrow> upload \<Rightarrow> aspect \<Rightarrow> video" where
  "with_url c e v f a = v\<lparr>videoURL := Some (s3CfDistribution c @ ''/'' @ object_key e f a)\<rparr>"

definition produced :: "cfg \<Rightarrow> env \<Rightarrow> upload \<Rightarrow> world \<Rightarrow> bytes option" where
  "produced c e f w =
     (case ffmpeg_output e of None \<Rightarrow> files w (processedFilePath c e f) | Some bs \<Rightarrow> Some bs)"

definition ffmpeg_events :: "cfg \<Rightarrow> env \<Rightarrow> upload \<Rightarrow> event list" where
  "ffmpeg_events c e f =
     ProcessSpawned (ffmpeg_args (filePath c e f) (processedFilePath c e f)) #
     (case ffmpeg_output e of None \<Rightarrow> [] | Some bs \<Rightarrow> [FileWritten (processedFilePath c e f)])"

definition staged :: "cfg \<Rightarrow> env \<Rightarrow> upload \<Rightarrow> world \<Rightarrow> world" where
  "staged c e f w =
     w\<lparr>files := (files w)(filePath c e f \<mapsto> file_bytes f),
       trace := trace w @ [FileWritten (filePath c e f)]\<rparr>"

definition transcoded :: "cfg \<Rightarrow> env \<Rightarrow> upload \<Rightarrow> world \<Rightarrow> world" where
  "transcoded c e f w =
     spawn_ffmpeg e (filePath c e f) (processedFilePath c e f) (staged c e f w)"

definition normalised :: "cfg \<Rightarrow> env \<Rightarrow> upload \<Rightarrow> world \<Rightarrow> world" where
  "normalised c e f w =
     (transcoded c e f w)
       \<lparr>files := (files (transcoded c e f w))(filePath c e f := None),
        trace := trace (transcoded c e f w) @ [FileDeleted (filePath c e f)]\<rparr>"

definition probed :: "cfg \<Rightarrow> env \<Rightarrow> upload \<Rightarrow> world \<Rightarrow> world" where
  "probed c e f w =
     (normalised c e f w)
       \<lparr>trace := trace (normalised c e f w) @
                 [ProcessSpawned (ffprobe_args (processedFilePath c e f))]\<rparr>"

definition published :: "cfg \<Rightarrow> env \<Rightarrow> upload \<Rightarrow> aspect \<Rightarrow> bytes \<Rightarrow> world \<Rightarrow> world" where
  "published c e f a bs w =
     (probed c e f w)
       \<lparr>s3 := (s3 (probed c e f w))(object_key e f a \<mapsto> (bs, file_type f)),
        trace := trace (probed c e f w) @ [ObjectPut (object_key e f a)]\<rparr>"

definition committed ::
  "cfg \<Rightarrow> env \<Rightarrow> video \<Rightarrow> upload \<Rightarrow> aspect \<Rightarrow> bytes \<Rightarrow> world \<Rightarrow> world" where
  "committed c e v f a bs w =
     (published c e f a bs w)
       \<lparr>db := (db (published c e f a bs w))(video_id (with_url c e v f a) \<mapsto> with_url c e v f a),
        trace := trace (published c e f a bs w) @ [RecordUpdated (with_url c e v f a)]\<rparr>"

definition cleaned ::
  "cfg \<Rightarrow> env \<Rightarrow> video \<Rightarrow> upload \<Rightarrow> aspect \<Rightarrow> bytes \<Rightarrow> world \<Rightarrow> world" where
  "cleaned c e v f a bs w =
     (committed c e v f a bs w)
       \<lparr>files := (files (committed c e v f a bs w))(processedFilePath c e f := None),
        trace := trace (committed c e v f a bs w) @ [FileDeleted (processedFilePath c e f)]\<rparr>"

text \<open>
  The effects of a complete run, in order, for the class \<open>a\<close> the prober returned: stage,
  normalise (the normaliser writes its output), delete the raw file, probe the processed file,
  publish, commit, delete the processed file.
\<close>

definition expected_trace :: "cfg \<Rightarrow> env \<Rightarrow> video \<Rightarrow> upload \<Rightarrow> aspect \<Rightarrow> event list" where
  "expected_trace c e v f a =
     [FileWritten (filePath c e f),
      ProcessSpawned (ffmpeg_args (filePath c e f) (processedFilePath c e f))] @
     (case ffmpeg_output e of None \<Rightarrow> [] | Some bs \<Rightarrow> [FileWritten (processedFilePath c e f)]) @
     [FileDeleted (filePath c e f),
      ProcessSpawned (ffprobe_args (processedFilePath c e f)),
      ObjectPut (aspect_name a @ ''/'' @ staged_name e f),
      RecordUpdated
        (v\<lparr>videoURL := Some (s3CfDistribution c @ ''/'' @ aspect_name a @ ''/'' @ staged_name e f)\<rparr>),
      FileDeleted (processedFilePath c e f)]"

text \<open>The staged files that exist after a sequence of effects.\<close>

definition file_step :: "string set \<Rightarrow> event \<Rightarrow> string set" where
  "file_step S ev =
     (case ev of FileWritten p \<Rightarrow> insert p S | FileDeleted p \<Rightarrow> S - {p} | _ \<Rightarrow> S)"

definition live_files :: "event list \<Rightarrow> string set" where
  "live_files evs = foldl file_step {} evs"

section \<open>Sample inputs\<close>

text \<open>
  A request of the owner \<open>alice\<close> for her record \<open>v1\<close>, with a three-byte file declared
  \<^verbatim>\<open>video/mp4\<close>, in an empty assets directory; thirty-two zero bytes as the random bytes;
  both processes exit with code 0 and the prober reports 1080 by 1920.
\<close>

definition sample_cfg :: cfg where
  "sample_cfg = \<lparr>assetsRoot = ''assets'', s3CfDistribution = ''https://cdn.example''\<rparr>"

definition sample_video :: video where
  "sample_video = \<lparr>video_id = ''v1'', userID = ''alice'', videoURL = None\<rparr>"

definition sample_upload :: upload where
  "sample_upload = \<lparr>file_type = ''video/mp4'', file_bytes = [1, 2, 3]\<rparr>"

definition sample_request :: request where
  "sample_request =
     \<lparr>videoId = Some ''v1'', formData = Inr [''video'' \<mapsto> FormFile sample_upload]\<rparr>"

definition sample_world :: world where
  "sample_world =
     \<lparr>files = Map.empty, s3 = Map.empty, db = [''v1'' \<mapsto> sample_video], trace = []\<rparr>"

definition sample_probe :: json where
  "sample_probe =
     JObject [(''programs'', JArray []),
              (''streams'', JArray [JObject [(''width'', JNumber (Finite False 1080)),
                                             (''height'', JNumber (Finite False 1920))]])]"

definition sample_env :: env where
  "sample_env =
     \<lparr>auth = Inr ''alice'', randomBytes = (\<lambda>n. replicate n 0), stage_error = None,
      ffmpeg_exit = Exited 0 [] [], ffmpeg_output = Some [4, 5, 6],
      ffprobe_exit = Exited 0 [] [], ffprobe_json = Some sample_probe,
      s3_error = None, updateVideo_error = None\<rparr>"

text \<open>
  The same request with thirty-two other random bytes and a prober that reports 1920 by
  1080, or 1 by 1.
\<close>

definition sample_bytes :: bytes where
  "sample_bytes =
     [52, 96, 190, 49, 32, 30, 105, 254, 218, 160, 238, 232, 185, 153, 127, 92,
      124, 41, 153, 253, 175, 229, 147, 37, 60, 214, 84, 175, 77, 250, 215, 20]"

definition landscape_probe :: json where
  "landscape_probe =
     JObject [(''streams'', JArray [JObject [(''width'', JNumber (Finite False 1920)),
                                             (''height'', JNumber (Finite False 1080))]])]"

definition square_probe :: json where
  "square_probe =
     JObject [(''streams'', JArray [JObject [(''width'', JNumber (Finite False 1)),
                                             (''height'', JNumber (Finite False 1))]])]"

definition landscape_env :: env where
  "landscape_env =
     sample_env\<lparr>randomBytes := (\<lambda>n. take n sample_bytes), ffprobe_json := Some landscape_probe\<rparr>"

definition square_env :: env where
  "square_env = landscape_env\<lparr>ffprobe_json := Some square_probe\<rparr>"

section \<open>Rounding to binary64\<close>

lemma two_powi_mono: "m \<le> n \<Longrightarrow> (2::real) powi m \<le> 2 powi n"
  by (rule power_int_increasing) simp_all

lemma expo_bounds:
  assumes "0 < q"
  shows "2 powi (expo q) \<le> q \<and> q < 2 powi (expo q + 1)"
proof (cases "1 \<le> q")
  case True
  define n where "n = \<lfloor>q\<rfloor>"
  have n1: "1 \<le> n" using True by (simp add: n_def le_floor_iff)
  then have n0: "0 < n" by simp
  have b1: "1 \<le> bitlen n" using n0 by (simp add: bitlen_alt_def)
  from bitlen_bounds[OF n0] have lo: "2 ^ nat (bitlen n - 1) \<le> n" and hi: "n < 2 ^ nat (bitlen n)"
    by simp_all
  have e: "expo q = bitlen n - 1" using True by (simp add: expo_def n_def)
  have "(2::real) powi (bitlen n - 1) = 2 ^ nat (bitlen n - 1)"
    using b1 by (simp add: power_int_nonneg_exp)
  also have "\<dots> = real_of_int (2 ^ nat (bitlen n - 1))" by simp
  also have "\<dots> \<le> real_of_int n" using lo by (simp only: of_int_le_iff)
  also have "\<dots> \<le> q" by (simp add: n_def)
  finally have L: "2 powi (expo q) \<le> q" by (simp add: e)
  have "n + 1 \<le> 2 ^ nat (bitlen n)" using hi by simp
  then have "real_of_int (n + 1) \<le> real_of_int (2 ^ nat (bitlen n))" by (simp only: of_int_le_iff)
  moreover have "q < real_of_int (n + 1)" by (simp add: n_def)
  moreover have "(2::real) powi (bitlen n) = 2 ^ nat (bitlen n)"
    using b1 by (simp add: power_int_nonneg_exp)
  ultimately have "q < 2 powi (expo q + 1)" by (simp add: e)
  with L show ?thesis by simp
next
  case False
  define r where "r = 1 / q"
  have r1: "1 < r" using False assms by (simp add: r_def)
  define m where "m = \<lceil>r\<rceil> - 1"
  have m1: "1 \<le> m" using r1 by (simp add: m_def less_ceiling_iff)
  then have m0: "0 < m" by simp
  define k where "k = bitlen m"
  have k1: "1 \<le> k" using m0 by (simp add: bitlen_alt_def k_def)
  from bitlen_bounds[OF m0] have lo: "2 ^ nat (k - 1) \<le> m" and hi: "m < 2 ^ nat k"
    by (simp_all add: k_def)
  have e: "expo q = - k" using False by (simp add: expo_def k_def m_def r_def)
  have mr: "real_of_int m < r" by (simp add: m_def) linarith
  have rm: "r \<le> real_of_int (m + 1)" by (simp add: m_def)
  have "real_of_int (2 ^ nat (k - 1)) \<le> real_of_int m" using lo by (simp only: of_int_le_iff)
  then have "(2::real) ^ nat (k - 1) \<le> real_of_int m" by simp
  then have A: "(2::real) ^ nat (k - 1) < r" using mr by linarith
  have "m + 1 \<le> 2 ^ nat k" using hi by simp
  then have "real_of_int (m + 1) \<le> real_of_int (2 ^ nat k)" by (simp only: of_int_le_iff)
  then have "real_of_int (m + 1) \<le> (2::real) ^ nat k" by simp
  then have B: "r \<le> (2::real) ^ nat k" using rm by linarith
  have q: "q = 1 / r" by (simp add: r_def)
  have "(2::real) powi (- k) = 1 / 2 ^ nat k"
    using k1 by (simp add: power_int_minus_divide power_int_nonneg_exp)
  also have "\<dots> \<le> 1 / r" using B r1 by (simp add: frac_le)
  also have "\<dots> = q" by (simp add: q)
  finally have L: "2 powi (expo q) \<le> q" by (simp only: e)
  have "(2::real) powi (- k + 1) = 1 / 2 powi (k - 1)"
    using power_int_minus_divide[of "2::real" "k - 1"] by simp
  also have "\<dots> = 1 / 2 ^ nat (k - 1)" using k1 by (simp add: power_int_nonneg_exp)
  finally have "(2::real) powi (- k + 1) = 1 / 2 ^ nat (k - 1)" .
  moreover have "1 / r < 1 / 2 ^ nat (k - 1)" using A by (simp add: frac_less2)
  moreover have "1 / r = q" by (simp add: q)
  ultimately have "q < 2 powi (- k + 1)" by simp
  then have "q < 2 powi (expo q + 1)" by (simp only: e)
  with L show ?thesis by simp
qed

lemma expo_unique:
  assumes "0 < q" and "2 powi e \<le> q" and "q < 2 powi (e + 1)"
  shows "expo q = e"
proof (rule ccontr)
  assume ne: "expo q \<noteq> e"
  from expo_bounds[OF assms(1)] have a: "2 powi (expo q) \<le> q" and b: "q < 2 powi (expo q + 1)"
    by simp_all
  show False
  proof (cases "expo q < e")
    case True
    then have "(2::real) powi (expo q + 1) \<le> 2 powi e" by (intro two_powi_mono) simp
    with b assms(2) show False by simp
  next
    case False
    with ne have "e + 1 \<le> expo q" by simp
    then have "(2::real) powi (e + 1) \<le> 2 powi (expo q)" by (rule two_powi_mono)
    with a assms(3) show False by simp
  qed
qed

lemma round_half_even_near: "\<bar>real_of_int (round_half_even x) - x\<bar> \<le> 1 / 2"
  unfolding round_half_even_def Let_def by (auto; linarith)

lemma round_half_even_unique:
  assumes "\<bar>x - real_of_int n\<bar> < 1 / 2"
  shows "round_half_even x = n"
proof -
  have "\<bar>real_of_int (round_half_even x) - x\<bar> \<le> 1 / 2" by (rule round_half_even_near)
  with assms have "\<bar>real_of_int (round_half_even x) - real_of_int n\<bar> < 1" by linarith
  then have "\<bar>real_of_int (round_half_even x - n)\<bar> < 1" by simp
  then have "\<bar>round_half_even x - n\<bar> < 1" by linarith
  then show ?thesis by simp
qed

lemma round_binary64_eval:
  assumes "0 < q" and "2 powi e \<le> q" and "q < 2 powi (e + 1)" and "- 1022 \<le> e"
    and "\<bar>q / 2 powi (e - 52) - real_of_int n\<bar> < 1 / 2"
    and "real_of_int n * 2 powi (e - 52) < 2 ^ 1024"
  shows "round_binary64 s q = Finite s (real_of_int n * 2 powi (e - 52))"
proof -
  have e: "expo q = e" using assms(1-3) by (rule expo_unique)
  have n: "round_half_even (q / 2 powi (e - 52)) = n" using assms(5) by (rule round_half_even_unique)
  have m: "max e (- 1022) = e" using assms(4) by simp
  show ?thesis
    using assms(1,6) by (simp add: round_binary64_def e m n Let_def)
qed

lemma round_binary64_lower:
  assumes "1 / 4 \<le> q" and "round_binary64 s q = Finite t r"
  shows "q / 2 \<le> r"
proof -
  have q0: "0 < q" using assms(1) by simp
  define e where "e = expo q"
  from expo_bounds[OF q0] have lo: "2 powi e \<le> q" and hi: "q < 2 powi (e + 1)"
    by (simp_all add: e_def)
  have "- 2 \<le> e"
  proof (rule ccontr)
    assume "\<not> - 2 \<le> e"
    then have "e + 1 \<le> - 2" by simp
    then have "(2::real) powi (e + 1) \<le> 2 powi (- 2)" by (rule two_powi_mono)
    with hi assms(1) show False by simp
  qed
  then have m: "max e (- 1022) = e" by simp
  define u :: real where "u = 2 powi (e - 52)"
  have u0: "0 < u" by (simp add: u_def)
  have "u = 2 powi e / 2 ^ 52" by (simp add: u_def power_int_diff)
  then have uq: "u \<le> q / 2 ^ 52" using lo by (simp add: divide_right_mono)
  define n where "n = round_half_even (q / u)"
  have "\<bar>real_of_int n - q / u\<bar> \<le> 1 / 2" unfolding n_def by (rule round_half_even_near)
  then have "q / u - 1 / 2 \<le> real_of_int n" by linarith
  then have "(q / u - 1 / 2) * u \<le> real_of_int n * u" using u0 by (simp only: mult_le_cancel_right_pos)
  moreover have "(q / u - 1 / 2) * u = q - u / 2" using u0 by (simp add: field_simps)
  ultimately have nu: "q - u / 2 \<le> real_of_int n * u" by simp
  have r: "r = real_of_int n * u"
    using assms(2) q0 by (simp add: round_binary64_def e_def[symmetric] m u_def[symmetric] n_def[symmetric] Let_def split: if_splits)
  have "u / 2 \<le> q / 2" using uq q0 by (simp add: field_simps)
  with nu show ?thesis unfolding r by linarith
qed

lemma tolerance_val: "tolerance = Finite False (5764607523034235 / 2 ^ 59)"
  unfolding tolerance_def js_lit_def
  using round_binary64_eval[of "1 / 100" "- 7" 5764607523034235 False] by simp

lemma lit16: "js_lit 16 = Finite False 16"
  unfolding js_lit_def using round_binary64_eval[of 16 4 4503599627370496 False] by simp

lemma lit9: "js_lit 9 = Finite False 9"
  unfolding js_lit_def using round_binary64_eval[of 9 3 5066549580791808 False] by simp

lemma portrait_val: "portrait = Finite False (2001599834386887 / 2 ^ 50)"
  unfolding portrait_def lit16 lit9
  using round_binary64_eval[of "16 / 9" 0 8006399337547548 False] by simp

lemma landscape_val: "landscape = Finite False (9 / 16)"
  unfolding landscape_def lit16 lit9
  using round_binary64_eval[of "9 / 16" "- 1" 5066549580791808 False] by simp

lemma within_tolerance_close:
  assumes "within_tolerance (Finite s x) (Finite t c)"
  shows "\<bar>with_sign s x - with_sign t c\<bar> < 1 / 2"
proof (rule ccontr)
  define v where "v = with_sign s x - with_sign t c"
  assume "\<not> \<bar>with_sign s x - with_sign t c\<bar> < 1 / 2"
  then have big: "1 / 2 \<le> \<bar>v\<bar>" by (simp add: v_def)
  then have v0: "v \<noteq> 0" by auto
  have sub: "js_sub (Finite s x) (Finite t c) = round_binary64 (v < 0) \<bar>v\<bar>"
    using v0 by (simp add: v_def Let_def)
  have q: "1 / 4 \<le> \<bar>v\<bar>" using big by simp
  show False
  proof (cases "round_binary64 (v < 0) \<bar>v\<bar>")
    case NaN
    with assms show False unfolding within_tolerance_def sub by simp
  next
    case (Infinity b)
    with assms show False unfolding within_tolerance_def sub by (simp add: tolerance_val)
  next
    case (Finite b r)
    from round_binary64_lower[OF q Finite] have "\<bar>v\<bar> / 2 \<le> r" .
    with big have "1 / 4 \<le> r" by simp
    moreover from assms Finite have "\<bar>r\<bar> < 5764607523034235 / 2 ^ 59"
      unfolding within_tolerance_def sub by (simp add: tolerance_val with_sign_def)
    ultimately show False by simp
  qed
qed

lemma bands_disjoint: "\<not> (within_tolerance a portrait \<and> within_tolerance a landscape)"
proof (cases a)
  case NaN
  then show ?thesis by (simp add: within_tolerance_def portrait_val)
next
  case (Infinity s)
  then show ?thesis by (simp add: within_tolerance_def portrait_val tolerance_val)
next
  case (Finite s x)
  show ?thesis
  proof
    assume both: "within_tolerance a portrait \<and> within_tolerance a landscape"
    define v where "v = with_sign s x"
    have "\<bar>with_sign s x - with_sign False (2001599834386887 / 2 ^ 50)\<bar> < 1 / 2"
      using both unfolding Finite portrait_val by (intro within_tolerance_close) simp
    then have A: "\<bar>v - 2001599834386887 / 2 ^ 50\<bar> < 1 / 2"
      by (simp add: v_def with_sign_def)
    have "\<bar>with_sign s x - with_sign False (9 / 16)\<bar> < 1 / 2"
      using both unfolding Finite landscape_val by (intro within_tolerance_close) simp
    then have B: "\<bar>v - 9 / 16\<bar> < 1 / 2"
      by (simp add: v_def with_sign_def)
    have "(1::real) \<le> 2001599834386887 / 2 ^ 50 - 9 / 16" by simp
    with A B show False by linarith
  qed
qed

lemma lit1: "js_lit 1 = Finite False 1"
  unfolding js_lit_def using round_binary64_eval[of 1 0 4503599627370496 False] by simp

lemma lit1778: "js_lit 1778 = Finite False 1778"
  unfolding js_lit_def using round_binary64_eval[of 1778 10 7819726696742912 False] by simp

lemma lit1000: "js_lit 1000 = Finite False 1000"
  unfolding js_lit_def using round_binary64_eval[of 1000 9 8796093022208000 False] by simp

lemma within_self: "within_tolerance (Finite False x) (Finite False x)"
  by (simp add: within_tolerance_def tolerance_val with_sign_def)

lemma classify_16_9: "classify (js_div (js_lit 16) (js_lit 9)) = Portrait"
  unfolding portrait_def[symmetric] by (simp add: classify_def portrait_val within_self)

lemma landscape_not_portrait: "\<not> within_tolerance landscape portrait"
  using bands_disjoint[of landscape] by (simp add: landscape_val within_self)

lemma classify_9_16: "classify (js_div (js_lit 9) (js_lit 16)) = Landscape"
  unfolding landscape_def[symmetric] using landscape_not_portrait
  by (simp add: classify_def) (simp add: landscape_val within_self)

lemma div_1_1: "js_div (js_lit 1) (js_lit 1) = Finite False 1"
  unfolding lit1 using round_binary64_eval[of 1 0 4503599627370496 False] by simp

lemma one_not_portrait: "\<not> within_tolerance (Finite False 1) portrait"
  using round_binary64_eval[of "875699927544263 / 2 ^ 50" "- 1" 7005599420354104 True]
  by (simp add: within_tolerance_def portrait_val tolerance_val with_sign_def Let_def)

lemma one_not_landscape: "\<not> within_tolerance (Finite False 1) landscape"
  using round_binary64_eval[of "7 / 16" "- 2" 7881299347898368 False]
  by (simp add: within_tolerance_def landscape_val tolerance_val with_sign_def Let_def)

lemma classify_1_1: "classify (js_div (js_lit 1) (js_lit 1)) = Other"
  by (simp add: div_1_1 classify_def one_not_portrait one_not_landscape)

lemma div_1778_1000: "js_div (js_lit 1778) (js_lit 1000) = Finite False (4003700068732371 / 2 ^ 51)"
  unfolding lit1778 lit1000
  using round_binary64_eval[of "1778 / 1000" 0 8007400137464742 False] by simp

lemma lit_1778m: "js_lit (1778 / 1000) = Finite False (4003700068732371 / 2 ^ 51)"
  unfolding js_lit_def
  using round_binary64_eval[of "1778 / 1000" 0 8007400137464742 False] by simp

lemma r1778_sub: "js_sub (Finite False (4003700068732371 / 2 ^ 51)) portrait = Finite False (500399958597 / 2 ^ 51)"
  using round_binary64_eval[of "500399958597 / 2 ^ 51" "- 13" 8198552921653248 False]
  by (simp add: portrait_val with_sign_def Let_def)

lemma r1778_portrait: "within_tolerance (Finite False (4003700068732371 / 2 ^ 51)) portrait"
  unfolding within_tolerance_def r1778_sub by (simp add: tolerance_val with_sign_def)

lemma classify_1778: "classify (js_div (js_lit 1778) (js_lit 1000)) = Portrait"
  unfolding div_1778_1000 classify_def using r1778_portrait by simp

section \<open>Paths\<close>

lemma segments_nonempty: "segments xs \<noteq> []"
  by (induction xs) (auto split: list.splits)

lemma segments_plain: "CHR ''/'' \<notin> set n \<Longrightarrow> segments n = [n]"
  by (induction n) auto

lemma segments_append:
  "CHR ''/'' \<notin> set n \<Longrightarrow> segments (d @ CHR ''/'' # n) = segments d @ [n]"
proof (induction d)
  case Nil
  then show ?case by (simp add: segments_plain)
next
  case (Cons x d)
  then show ?case
    using segments_nonempty[of d] by (cases "segments d") auto
qed

lemma normalizeString_last:
  assumes "n \<noteq> []" "n \<noteq> ''.''" "n \<noteq> ''..''"
  shows "\<exists>pre. normalizeString allow res (ss @ [n]) = pre @ [n]"
  using assms by (induction ss arbitrary: res) auto

lemma join_segments_last:
  "join_segments (pre @ [n]) = (if pre = [] then n else join_segments pre @ ''/'' @ n)"
  by (induction pre rule: join_segments.induct) auto

lemma path_normalize_file:
  assumes "CHR ''/'' \<notin> set n" "n \<noteq> []" "n \<noteq> ''.''" "n \<noteq> ''..''"
    and "segments path = ss @ [n]" and "path \<noteq> []" and "last path = last n"
  shows "\<exists>pre. path_normalize path = pre @ n \<and> (pre = [] \<or> last pre = CHR ''/'')"
proof -
  from normalizeString_last[OF assms(2,3,4)] obtain pre where
    pre: "normalizeString (hd path \<noteq> CHR ''/'') [] (ss @ [n]) = pre @ [n]" by blast
  have nl: "last n \<noteq> CHR ''/''" using assms(1,2) last_in_set by metis
  let ?p = "join_segments (pre @ [n])"
  have p: "?p \<noteq> []" using assms(2) by (simp add: join_segments_last)
  have "path_normalize path = (if hd path = CHR ''/'' then ''/'' else []) @ ?p"
    using p nl assms(5,6,7) pre by (simp add: path_normalize_def Let_def)
  then show ?thesis
    by (cases "pre = []") (auto simp: join_segments_last)
qed

text \<open>A file name of one segment is the last segment of the joined path, whatever the
  directory.\<close>

lemma path_join_file:
  assumes "CHR ''/'' \<notin> set n" "n \<noteq> []" "n \<noteq> ''.''" "n \<noteq> ''..''"
  shows "\<exists>pre. path_join dir n = pre @ n \<and> (pre = [] \<or> last pre = CHR ''/'')"
proof (cases "dir = []")
  case True
  then show ?thesis
    using path_normalize_file[OF assms, of n "[]"] assms
    by (simp add: path_join_def segments_plain)
next
  case False
  have "\<exists>pre. path_normalize (dir @ ''/'' @ n) = pre @ n \<and> (pre = [] \<or> last pre = CHR ''/'')"
    using assms(2)
    by (intro path_normalize_file[OF assms, of _ "segments dir"])
      (simp_all add: segments_append[OF assms(1)])
  then show ?thesis
    using False assms(2) by (simp add: path_join_def)
qed

text \<open>A directory of one plain segment is kept as it is.\<close>

lemma path_join_plain:
  assumes "CHR ''/'' \<notin> set n" "n \<noteq> []" "n \<noteq> ''.''" "n \<noteq> ''..''"
    and "CHR ''/'' \<notin> set d" "d \<noteq> []" "d \<noteq> ''.''" "d \<noteq> ''..''"
  shows "path_join d n = d @ ''/'' @ n"
proof -
  have "hd d \<noteq> CHR ''/''" using assms(5,6) hd_in_set by metis
  moreover have "last n \<noteq> CHR ''/''" using assms(1,2) last_in_set by metis
  ultimately show ?thesis
    using assms
    by (simp add: path_join_def path_normalize_def Let_def segments_append segments_plain)
qed

text \<open>Directories that the normalisation changes.\<close>

lemma path_join_examples:
  "path_join ''./assets'' ''x.mp4'' = ''assets/x.mp4''"
  "path_join [] ''x.mp4'' = ''x.mp4''"
  "path_join ''assets/'' ''x.mp4'' = ''assets/x.mp4''"
  "path_join ''/srv//tubely/../assets'' ''x.mp4'' = ''/srv/assets/x.mp4''"
  "path_join ''..'' ''x.mp4'' = ''../x.mp4''"
  by (simp_all add: path_join_def path_normalize_def)

section \<open>The outcomes of the pipeline\<close>

lemma processed_neq_raw [simp]:
  "processedFilePath c e f \<noteq> filePath c e f" "filePath c e f \<noteq> processedFilePath c e f"
  by (simp_all add: processedFilePath_def)

subsection \<open>Their components\<close>

lemma staged_simps [simp]:
  "files (staged c e f w) = (files w)(filePath c e f \<mapsto> file_bytes f)"
  "trace (staged c e f w) = trace w @ [FileWritten (filePath c e f)]"
  "db (staged c e f w) = db w" "s3 (staged c e f w) = s3 w"
  by (simp_all add: staged_def)

lemma transcoded_files:
  "files (transcoded c e f w) p =
     (if p = processedFilePath c e f then produced c e f w
      else if p = filePath c e f then Some (file_bytes f) else files w p)"
  by (simp add: transcoded_def spawn_ffmpeg_def produced_def split: option.splits)

lemma transcoded_simps [simp]:
  "trace (transcoded c e f w) = trace w @ FileWritten (filePath c e f) # ffmpeg_events c e f"
  "db (transcoded c e f w) = db w" "s3 (transcoded c e f w) = s3 w"
  by (simp_all add: transcoded_def spawn_ffmpeg_def ffmpeg_events_def)

lemma normalised_files:
  "files (normalised c e f w) p =
     (if p = processedFilePath c e f then produced c e f w
      else if p = filePath c e f then None else files w p)"
  by (simp add: normalised_def transcoded_files)

lemma normalised_simps [simp]:
  "trace (normalised c e f w) =
     trace w @ FileWritten (filePath c e f) # ffmpeg_events c e f @ [FileDeleted (filePath c e f)]"
  "db (normalised c e f w) = db w" "s3 (normalised c e f w) = s3 w"
  by (simp_all add: normalised_def)

lemma probed_simps [simp]:
  "files (probed c e f w) = files (normalised c e f w)"
  "trace (probed c e f w) =
     trace w @ FileWritten (filePath c e f) # ffmpeg_events c e f @
     [FileDeleted (filePath c e f), ProcessSpawned (ffprobe_args (processedFilePath c e f))]"
  "db (probed c e f w) = db w" "s3 (probed c e f w) = s3 w"
  by (simp_all add: probed_def)

lemma published_simps [simp]:
  "files (published c e f a bs w) = files (normalised c e f w)"
  "trace (published c e f a bs w) =
     trace w @ FileWritten (filePath c e f) # ffmpeg_events c e f @
     [FileDeleted (filePath c e f), ProcessSpawned (ffprobe_args (processedFilePath c e f)),
      ObjectPut (object_key e f a)]"
  "db (published c e f a bs w) = db w"
  "s3 (published c e f a bs w) = (s3 w)(object_key e f a \<mapsto> (bs, file_type f))"
  by (simp_all add: published_def)

lemma committed_simps [simp]:
  "files (committed c e v f a bs w) = files (normalised c e f w)"
  "trace (committed c e v f a bs w) =
     trace w @ FileWritten (filePath c e f) # ffmpeg_events c e f @
     [FileDeleted (filePath c e f), ProcessSpawned (ffprobe_args (processedFilePath c e f)),
      ObjectPut (object_key e f a), RecordUpdated (with_url c e v f a)]"
  "db (committed c e v f a bs w) = (db w)(video_id v \<mapsto> with_url c e v f a)"
  "s3 (committed c e v f a bs w) = (s3 w)(object_key e f a \<mapsto> (bs, file_type f))"
  by (simp_all add: committed_def with_url_def)

lemma cleaned_files:
  "files (cleaned c e v f a bs w) p =
     (if p = processedFilePath c e f \<or> p = filePath c e f then None else files w p)"
  by (simp add: cleaned_def normalised_files)

lemma cleaned_simps [simp]:
  "trace (cleaned c e v f a bs w) =
     trace w @ FileWritten (filePath c e f) # ffmpeg_events c e f @
     [FileDeleted (filePath c e f), ProcessSpawned (ffprobe_args (processedFilePath c e f)),
      ObjectPut (object_key e f a), RecordUpdated (with_url c e v f a),
      FileDeleted (processedFilePath c e f)]"
  "db (cleaned c e v f a bs w) = (db w)(video_id v \<mapsto> with_url c e v f a)"
  "s3 (cleaned c e v f a bs w) = (s3 w)(object_key e f a \<mapsto> (bs, file_type f))"
  by (simp_all add: cleaned_def)

subsection \<open>The steps\<close>

lemma bun_write_ok: "bun_write None (filePath c e f) (file_bytes f) w = Inr (staged c e f w)"
  by (simp add: bun_write_def staged_def)

lemma process_exited:
  assumes "ffmpeg_exit e = Exited code out err"
  shows "processVideoForFastStart e (filePath c e f) (staged c e f w) =
     (if code \<noteq> 0 then Inl (Error (''ffmpeg failed: '' @ err))
      else Inr (processedFilePath c e f), transcoded c e f w)"
  using assms
  by (simp add: processVideoForFastStart_def transcoded_def processedFilePath_def Let_def)

lemma delete_raw: "bun_delete (filePath c e f) (transcoded c e f w) = Inr (normalised c e f w)"
  by (simp add: bun_delete_def normalised_def dom_def transcoded_files)

lemma probe_exited:
  assumes "ffprobe_exit e = Exited code out err"
  shows "getVideoAspectRatio e (processedFilePath c e f) (normalised c e f w) =
     (if code \<noteq> 0 then Inl (Error err) else aspect_of_output (ffprobe_json e), probed c e f w)"
  using assms by (simp add: getVideoAspectRatio_def probed_def Let_def)

lemma publish_step:
  "s3_write failure (object_key e f a) (processedFilePath c e f) (file_type f) (probed c e f w) =
     (case produced c e f w of
        None \<Rightarrow> Inl (Thrown ''ENOENT'')
      | Some bs \<Rightarrow>
          (case failure of
             Some m \<Rightarrow> Inl (Thrown m)
           | None \<Rightarrow> Inr (published c e f a bs w)))"
  by (simp add: s3_write_def normalised_files published_def split: option.splits)

lemma commit_step:
  "updateVideo failure (with_url c e v f a) (published c e f a bs w) =
     (case failure of
        Some m \<Rightarrow> Inl (Thrown m)
      | None \<Rightarrow> Inr (committed c e v f a bs w))"
  by (simp add: updateVideo_def committed_def split: option.splits)

lemma delete_processed:
  assumes "produced c e f w = Some bs'"
  shows "bun_delete (processedFilePath c e f) (committed c e v f a bs w) =
     Inr (cleaned c e v f a bs w)"
  using assms by (simp add: bun_delete_def cleaned_def dom_def normalised_files)

text \<open>The pipeline, one outcome after the other.\<close>

lemma upload_pipeline_outcome:
  "upload_pipeline c e v f w =
     (case stage_error e of
        Some m \<Rightarrow> (Inl (Thrown m), w)
      | None \<Rightarrow>
     (case ffmpeg_exit e of
        SpawnFailed m \<Rightarrow> (Inl (Thrown m), staged c e f w)
      | Exited code out err \<Rightarrow>
     if code \<noteq> 0 then (Inl (Error (''ffmpeg failed: '' @ err)), transcoded c e f w)
     else
     (case ffprobe_exit e of
        SpawnFailed m \<Rightarrow> (Inl (Thrown m), normalised c e f w)
      | Exited code' out' err' \<Rightarrow>
     if code' \<noteq> 0 then (Inl (Error err'), probed c e f w)
     else
     (case aspect_of_output (ffprobe_json e) of
        Inl er \<Rightarrow> (Inl er, probed c e f w)
      | Inr a \<Rightarrow>
     (case produced c e f w of
        None \<Rightarrow> (Inl (Thrown ''ENOENT''), probed c e f w)
      | Some bs \<Rightarrow>
     (case s3_error e of
        Some m \<Rightarrow> (Inl (Thrown m), probed c e f w)
      | None \<Rightarrow>
     (case updateVideo_error e of
        Some m \<Rightarrow> (Inl (Thrown m), published c e f a bs w)
      | None \<Rightarrow> (Inr (Response 200 (with_url c e v f a)), cleaned c e v f a bs w))))))))"
proof (cases "stage_error e")
  case (Some m)
  then show ?thesis by (simp add: upload_pipeline_def bun_write_def)
next
  case None
  note st = None
  show ?thesis
  proof (cases "ffmpeg_exit e")
    case (SpawnFailed m)
    then show ?thesis
      by (simp add: upload_pipeline_def st bun_write_ok processVideoForFastStart_def)
  next
    case (Exited code out err)
    note ff = Exited
    show ?thesis
    proof (cases "code = 0")
      case False
      then show ?thesis
        by (simp add: upload_pipeline_def st bun_write_ok process_exited[OF ff] ff)
    next
      case True
      note c0 = True
      have start: "upload_pipeline c e v f w =
        (case getVideoAspectRatio e (processedFilePath c e f) (normalised c e f w) of
           (Inl err, w4) \<Rightarrow> (Inl err, w4)
         | (Inr a, w4) \<Rightarrow>
           (case s3_write (s3_error e) (object_key e f a) (processedFilePath c e f)
                   (file_type f) w4 of
              Inl err \<Rightarrow> (Inl err, w4)
            | Inr w5 \<Rightarrow>
               (case updateVideo (updateVideo_error e) (with_url c e v f a) w5 of
                  Inl err \<Rightarrow> (Inl err, w5)
                | Inr w6 \<Rightarrow>
                   (case bun_delete (processedFilePath c e f) w6 of
                      Inl err \<Rightarrow> (Inl err, w6)
                    | Inr w7 \<Rightarrow> (Inr (Response 200 (with_url c e v f a)), w7)))))"
        unfolding upload_pipeline_def Let_def object_key_def with_url_def
        by (simp add: st bun_write_ok process_exited[OF ff] c0 delete_raw)
      show ?thesis
      proof (cases "ffprobe_exit e")
        case (SpawnFailed m)
        then show ?thesis
          by (simp add: start st ff c0 getVideoAspectRatio_def)
      next
        case (Exited code' out' err')
        note fp = Exited
        show ?thesis
        proof (cases "code' = 0")
          case False
          then show ?thesis by (simp add: start st ff c0 fp probe_exited[OF fp])
        next
          case True
          note c1 = True
          show ?thesis
          proof (cases "aspect_of_output (ffprobe_json e)")
            case (Inl er)
            then show ?thesis by (simp add: start st ff c0 fp c1 probe_exited[OF fp])
          next
            case (Inr a)
            note asp = Inr
            show ?thesis
            proof (cases "produced c e f w")
              case None
              then show ?thesis
                by (simp add: start st ff c0 fp c1 asp probe_exited[OF fp] publish_step)
            next
              case (Some bs)
              note pr = Some
              show ?thesis
              proof (cases "s3_error e")
                case (Some m)
                then show ?thesis
                  by (simp add: start st ff c0 fp c1 asp pr probe_exited[OF fp] publish_step)
              next
                case None
                note s3ok = None
                show ?thesis
                proof (cases "updateVideo_error e")
                  case (Some m)
                  then show ?thesis
                    by (simp add: start st ff c0 fp c1 asp pr s3ok probe_exited[OF fp]
                        publish_step commit_step)
                next
                  case None
                  then show ?thesis
                    by (simp add: start st ff c0 fp c1 asp pr s3ok probe_exited[OF fp]
                        publish_step commit_step delete_processed[OF pr])
                qed
              qed
            qed
          qed
        qed
      qed
    qed
  qed
qed

lemma pipeline_cases
  [case_names stage_failed spawn_failed ffmpeg_failed probe_spawn_failed probe_failed
     output_rejected output_missing publish_failed commit_failed succeeded]:
  obtains
    (stage_failed) m where "stage_error e = Some m"
      and "upload_pipeline c e v f w = (Inl (Thrown m), w)"
  | (spawn_failed) m where "stage_error e = None" and "ffmpeg_exit e = SpawnFailed m"
      and "upload_pipeline c e v f w = (Inl (Thrown m), staged c e f w)"
  | (ffmpeg_failed) code out err where "stage_error e = None"
      and "ffmpeg_exit e = Exited code out err" and "code \<noteq> 0"
      and "upload_pipeline c e v f w =
             (Inl (Error (''ffmpeg failed: '' @ err)), transcoded c e f w)"
  | (probe_spawn_failed) out err m where "stage_error e = None"
      and "ffmpeg_exit e = Exited 0 out err" and "ffprobe_exit e = SpawnFailed m"
      and "upload_pipeline c e v f w = (Inl (Thrown m), normalised c e f w)"
  | (probe_failed) out err code' out' err' where "stage_error e = None"
      and "ffmpeg_exit e = Exited 0 out err" and "ffprobe_exit e = Exited code' out' err'"
      and "code' \<noteq> 0"
      and "upload_pipeline c e v f w = (Inl (Error err'), probed c e f w)"
  | (output_rejected) out err out' err' er where "stage_error e = None"
      and "ffmpeg_exit e = Exited 0 out err" and "ffprobe_exit e = Exited 0 out' err'"
      and "aspect_of_output (ffprobe_json e) = Inl er"
      and "upload_pipeline c e v f w = (Inl er, probed c e f w)"
  | (output_missing) out err out' err' a where "stage_error e = None"
      and "ffmpeg_exit e = Exited 0 out err" and "ffprobe_exit e = Exited 0 out' err'"
      and "aspect_of_output (ffprobe_json e) = Inr a" and "produced c e f w = None"
      and "upload_pipeline c e v f w = (Inl (Thrown ''ENOENT''), probed c e f w)"
  | (publish_failed) out err out' err' a bs m where "stage_error e = None"
      and "ffmpeg_exit e = Exited 0 out err" and "ffprobe_exit e = Exited 0 out' err'"
      and "aspect_of_output (ffprobe_json e) = Inr a" and "produced c e f w = Some bs"
      and "s3_error e = Some m"
      and "upload_pipeline c e v f w = (Inl (Thrown m), probed c e f w)"
  | (commit_failed) out err out' err' a bs m where "stage_error e = None"
      and "ffmpeg_exit e = Exited 0 out err" and "ffprobe_exit e = Exited 0 out' err'"
      and "aspect_of_output (ffprobe_json e) = Inr a" and "produced c e f w = Some bs"
      and "s3_error e = None" and "updateVideo_error e = Some m"
      and "upload_pipeline c e v f w = (Inl (Thrown m), published c e f a bs w)"
  | (succeeded) out err out' err' a bs where "stage_error e = None"
      and "ffmpeg_exit e = Exited 0 out err" and "ffprobe_exit e = Exited 0 out' err'"
      and "aspect_of_output (ffprobe_json e) = Inr a" and "produced c e f w = Some bs"
      and "s3_error e = None" and "updateVideo_error e = None"
      and "upload_pipeline c e v f w =
             (Inr (Response 200 (with_url c e v f a)), cleaned c e v f a bs w)"
proof (cases "stage_error e")
  case (Some m)
  then show ?thesis using stage_failed[of m] by (simp add: upload_pipeline_outcome)
next
  case None
  note st = None
  show ?thesis
  proof (cases "ffmpeg_exit e")
    case (SpawnFailed m)
    then show ?thesis using spawn_failed[of m] st by (simp add: upload_pipeline_outcome)
  next
    case (Exited code out err)
    note ff = Exited
    show ?thesis
    proof (cases "code = 0")
      case False
      then show ?thesis
        using ffmpeg_failed[of code out err] st ff by (simp add: upload_pipeline_outcome)
    next
      case True
      note ff0 = ff[unfolded True]
      show ?thesis
      proof (cases "ffprobe_exit e")
        case (SpawnFailed m)
        then show ?thesis
          using probe_spawn_failed[of out err m] st ff0 by (simp add: upload_pipeline_outcome)
      next
        case (Exited code' out' err')
        note fp = Exited
        show ?thesis
        proof (cases "code' = 0")
          case False
          then show ?thesis
            using probe_failed[of out err code' out' err'] st ff0 fp
            by (simp add: upload_pipeline_outcome)
        next
          case True
          note fp0 = fp[unfolded True]
          show ?thesis
          proof (cases "aspect_of_output (ffprobe_json e)")
            case (Inl er)
            then show ?thesis
              using output_rejected[of out err out' err' er] st ff0 fp0
              by (simp add: upload_pipeline_outcome)
          next
            case (Inr a)
            note asp = Inr
            show ?thesis
            proof (cases "produced c e f w")
              case None
              then show ?thesis
                using output_missing[of out err out' err' a] st ff0 fp0 asp
                by (simp add: upload_pipeline_outcome)
            next
              case (Some bs)
              note pr = Some
              show ?thesis
              proof (cases "s3_error e")
                case (Some m)
                then show ?thesis
                  using publish_failed[of out err out' err' a bs m] st ff0 fp0 asp pr
                  by (simp add: upload_pipeline_outcome)
              next
                case None
                note s3ok = None
                show ?thesis
                proof (cases "updateVideo_error e")
                  case (Some m)
                  then show ?thesis
                    using commit_failed[of out err out' err' a bs m] st ff0 fp0 asp pr s3ok
                    by (simp add: upload_pipeline_outcome)
                next
                  case None
                  then show ?thesis
                    using succeeded[of out err out' err' a bs] st ff0 fp0 asp pr s3ok
                    by (simp add: upload_pipeline_outcome)
                qed
              qed
            qed
          qed
        qed
      qed
    qed
  qed
qed

section \<open>The validation prefix of the handler\<close>

lemma MAX_UPLOAD_SIZE_val: "MAX_UPLOAD_SIZE = 1073741824"
  by (simp add: MAX_UPLOAD_SIZE_def)

lemma sample_accepted: "accepted sample_request sample_env sample_world sample_video sample_upload"
  by (simp add: accepted_def getVideo_def sample_request_def sample_env_def sample_world_def sample_video_def
      sample_upload_def file_size_def MAX_UPLOAD_SIZE_val)

lemma div_1920_1080: "js_div (Finite False 1920) (Finite False 1080) = portrait"
  unfolding portrait_val
  using round_binary64_eval[of "1920 / 1080" 0 8006399337547548 False] by simp

lemma round_16_9: "round_binary64 False (16 / 9) = portrait"
  unfolding portrait_val
  using round_binary64_eval[of "16 / 9" 0 8006399337547548 False] by simp

lemma sample_aspect: "aspect_of_output (Some sample_probe) = Inr Portrait"
  by (simp add: aspect_of_output_def sample_probe_def round_16_9 classify_def)
    (simp add: within_self portrait_val)

lemma handler_accepted:
  assumes "accepted req e w v f"
  shows "handlerUploadVideo c req e w = upload_pipeline c e v f w"
  using assms
  by (auto simp: accepted_def handlerUploadVideo_def getVideo_def split: option.splits sum.splits)

lemma handler_rejected:
  assumes "\<And>v f. \<not> accepted req e w v f"
  shows "snd (handlerUploadVideo c req e w) = w \<and> isl (fst (handlerUploadVideo c req e w))"
  using assms
  by (auto simp: accepted_def handlerUploadVideo_def getVideo_def
      split: option.splits sum.splits form_entry.splits)

lemma aspect_of_output_errors:
  assumes "aspect_of_output p = Inl err"
  shows "err = SyntaxError \<or> err = TypeError \<or> err = format_error"
  using assms
  by (auto simp: aspect_of_output_def split: option.splits json.splits if_splits)

lemma pipeline_not_bad_request:
  "fst (upload_pipeline c e v f w) \<noteq> Inl (BadRequestError msg)"
proof (cases rule: pipeline_cases[of e c v f w])
  case (output_rejected out err out' err' er)
  then show ?thesis
    using aspect_of_output_errors[of "ffprobe_json e" er] by (auto simp: format_error_def)
qed simp_all

lemma replicate_32: "replicate 32 x = [x,x,x,x,x,x,x,x,x,x,x,x,x,x,x,x,x,x,x,x,x,x,x,x,x,x,x,x,x,x,x,x]"
  by (simp add: eval_nat_numeral)

lemma sample_token: "base64url (randomBytes sample_env 32) = ''AAAAAAAAAAAAAAAAAAAAAAAAAAAAAAAAAAAAAAAAAAA''"
  unfolding sample_env_def by (simp add: replicate_32 digit64_def base64url_alphabet_def)

lemma sample_name: "staged_name sample_env sample_upload = ''AAAAAAAAAAAAAAAAAAAAAAAAAAAAAAAAAAAAAAAAAAA.mp4''"
  by (simp add: staged_name_def sample_token sample_upload_def slice_def)

lemma sample_paths:
  "filePath sample_cfg sample_env sample_upload = ''assets/AAAAAAAAAAAAAAAAAAAAAAAAAAAAAAAAAAAAAAAAAAA.mp4''"
  "processedFilePath sample_cfg sample_env sample_upload =
     ''assets/AAAAAAAAAAAAAAAAAAAAAAAAAAAAAAAAAAAAAAAAAAA.mp4.processed''"
  using path_join_plain[of "''AAAAAAAAAAAAAAAAAAAAAAAAAAAAAAAAAAAAAAAAAAA.mp4''" "''assets''"]
  by (simp_all add: processedFilePath_def filePath_def sample_name sample_cfg_def)

lemma accepted_env:
  assumes "auth e' = auth e"
  shows "accepted req e' w v f = accepted req e w v f"
  using assms by (simp add: accepted_def getVideo_def split: option.splits)

lemma no_update_in_ffmpeg_events [simp]: "RecordUpdated v \<notin> set (ffmpeg_events c e f)"
  by (simp add: ffmpeg_events_def split: option.splits)

lemma pipeline_leaves_record:
  "\<exists>evs. trace (snd (upload_pipeline c e v f w)) = trace w @ evs \<and>
     (isl (fst (upload_pipeline c e v f w)) \<longrightarrow>
        db (snd (upload_pipeline c e v f w)) = db w \<and> (\<forall>u. RecordUpdated u \<notin> set evs)) \<and>
     (\<forall>u. RecordUpdated u \<in> set evs \<longrightarrow>
        (\<exists>pre k post. evs = pre @ ObjectPut k # RecordUpdated u # post))"
proof (cases rule: pipeline_cases[of e c v f w])
  case (succeeded out err out' err' a bs)
  let ?evs = "FileWritten (filePath c e f) # ffmpeg_events c e f @
     [FileDeleted (filePath c e f), ProcessSpawned (ffprobe_args (processedFilePath c e f)),
      ObjectPut (object_key e f a), RecordUpdated (with_url c e v f a),
      FileDeleted (processedFilePath c e f)]"
  have *: "\<exists>pre k post. ?evs = pre @ ObjectPut k # RecordUpdated u # post"
    if "RecordUpdated u \<in> set ?evs" for u
  proof -
    from that have u: "u = with_url c e v f a" by simp
    have "?evs = (FileWritten (filePath c e f) # ffmpeg_events c e f @
       [FileDeleted (filePath c e f), ProcessSpawned (ffprobe_args (processedFilePath c e f))]) @
       ObjectPut (object_key e f a) # RecordUpdated u # [FileDeleted (processedFilePath c e f)]"
      by (simp add: u)
    then show ?thesis by (intro exI)
  qed
  show ?thesis
  proof (rule exI[of _ ?evs], intro conjI)
    show "trace (snd (upload_pipeline c e v f w)) = trace w @ ?evs"
      by (simp add: succeeded(8))
    show "isl (fst (upload_pipeline c e v f w)) \<longrightarrow>
        db (snd (upload_pipeline c e v f w)) = db w \<and> (\<forall>u. RecordUpdated u \<notin> set ?evs)"
      by (simp add: succeeded(8))
    show "\<forall>u. RecordUpdated u \<in> set ?evs \<longrightarrow>
        (\<exists>pre k post. ?evs = pre @ ObjectPut k # RecordUpdated u # post)"
      using * by (intro allI impI)
  qed
qed simp_all

section \<open>Files and effects of the pipeline\<close>

lemma paths_env:
  assumes "randomBytes e' = randomBytes e"
  shows "staged_name e' f = staged_name e f" and "filePath c e' f = filePath c e f"
    and "processedFilePath c e' f = processedFilePath c e f"
  using assms by (simp_all add: staged_name_def filePath_def processedFilePath_def)

lemma pipeline_staged_files:
  fixes c e v f w
  defines "r \<equiv> upload_pipeline c e v f w"
  shows "(stage_error e \<noteq> None \<longrightarrow> snd r = w) \<and>
     (stage_error e = None \<and> (\<forall>out err. ffmpeg_exit e \<noteq> Exited 0 out err) \<longrightarrow>
        isl (fst r) \<and> files (snd r) (filePath c e f) = Some (file_bytes f)) \<and>
     (stage_error e = None \<and> (\<exists>out err. ffmpeg_exit e = Exited 0 out err) \<and> isl (fst r) \<longrightarrow>
        files (snd r) (filePath c e f) = None \<and>
        files (snd r) (processedFilePath c e f) =
          (case ffmpeg_output e of
             None \<Rightarrow> files w (processedFilePath c e f)
           | Some bs \<Rightarrow> Some bs)) \<and>
     (\<not> isl (fst r) \<longrightarrow>
        files (snd r) (filePath c e f) = None \<and>
        files (snd r) (processedFilePath c e f) = None) \<and>
     (\<forall>p. p \<noteq> filePath c e f \<and> p \<noteq> processedFilePath c e f \<longrightarrow>
        files (snd r) p = files w p)"
  unfolding r_def
  by (cases rule: pipeline_cases[of e c v f w])
    (simp_all add: transcoded_files normalised_files cleaned_files produced_def)

lemma sample_env_fields:
  "auth sample_env = Inr ''alice''" "stage_error sample_env = None"
  "ffmpeg_exit sample_env = Exited 0 [] []" "ffmpeg_output sample_env = Some [4, 5, 6]"
  "ffprobe_exit sample_env = Exited 0 [] []" "ffprobe_json sample_env = Some sample_probe"
  "s3_error sample_env = None" "updateVideo_error sample_env = None"
  by (simp_all add: sample_env_def)

lemma sample_run:
  "handlerUploadVideo sample_cfg sample_request sample_env sample_world =
     (Inr (Response 200 (with_url sample_cfg sample_env sample_video sample_upload Portrait)),
      cleaned sample_cfg sample_env sample_video sample_upload Portrait [4, 5, 6] sample_world)"
  unfolding handler_accepted[OF sample_accepted]
  by (simp add: upload_pipeline_outcome sample_env_fields sample_aspect produced_def)

lemma expected_trace_alt:
  "expected_trace c e v f a =
     FileWritten (filePath c e f) # ffmpeg_events c e f @
     [FileDeleted (filePath c e f), ProcessSpawned (ffprobe_args (processedFilePath c e f)),
      ObjectPut (object_key e f a), RecordUpdated (with_url c e v f a),
      FileDeleted (processedFilePath c e f)]"
  by (simp add: expected_trace_def ffmpeg_events_def object_key_def with_url_def)

lemma expected_trace_live:
  assumes "prefix p (expected_trace c e v f a)"
  shows "card (live_files p) \<le> 2"
proof -
  from assms have "p \<in> set (prefixes (expected_trace c e v f a))"
    by (simp only: in_set_prefixes)
  then show ?thesis
    by (cases "ffmpeg_output e")
      (auto simp: expected_trace_def live_files_def file_step_def card_insert_if)
qed

section \<open>The token and the extension\<close>

lemma base64url_length: "length (base64url xs) = (4 * length xs + 2) div 3"
  by (induction xs rule: base64url.induct) (simp_all add: Let_def)

lemma alphabet_length: "length base64url_alphabet = 64"
  by (simp add: base64url_alphabet_def)

lemma alphabet_distinct: "distinct base64url_alphabet"
  by (simp add: base64url_alphabet_def)

lemma digit64_mem: "k < 64 \<Longrightarrow> digit64 k \<in> set base64url_alphabet"
  by (simp add: digit64_def alphabet_length)

lemma digit64_inj:
  assumes "i < 64" and "j < 64" and "digit64 i = digit64 j"
  shows "i = j"
  using assms alphabet_distinct
  by (simp add: digit64_def nth_eq_iff_index_eq alphabet_length)

lemma byte_bound: "unat (a :: 8 word) < 256"
  using unsigned_less[of a, where 'a = nat] by simp

lemma base64url_chars: "set (base64url xs) \<subseteq> set base64url_alphabet"
proof (induction xs rule: base64url.induct)
  case (1 a b c rest)
  have "unat a * 65536 + unat b * 256 + unat c < 16777216"
    using byte_bound[of a] byte_bound[of b] byte_bound[of c] by linarith
  then have "(unat a * 65536 + unat b * 256 + unat c) div 262144 < 64" by simp
  with 1 show ?case by (simp add: Let_def digit64_mem)
next
  case (2 a b)
  have "unat a * 1024 + unat b * 4 < 262144"
    using byte_bound[of a] byte_bound[of b] by linarith
  then have "(unat a * 1024 + unat b * 4) div 4096 < 64" by simp
  then show ?case by (simp add: Let_def digit64_mem)
next
  case (3 a)
  have "unat a * 16 < 4096" using byte_bound[of a] by linarith
  then have "unat a * 16 div 64 < 64" by simp
  then show ?case by (simp add: Let_def digit64_mem)
next
  case 4
  then show ?case by simp
qed

lemma sextets_determine:
  fixes n m :: nat
  assumes "n div 262144 = m div 262144" and "n div 4096 mod 64 = m div 4096 mod 64"
    and "n div 64 mod 64 = m div 64 mod 64" and "n mod 64 = m mod 64"
  shows "n = m"
proof -
  have d: "k = 64 * (k div 64) + k mod 64" for k :: nat by simp
  have "n div 64 = m div 64"
  proof -
    have "n div 64 div 64 = m div 64 div 64"
    proof -
      have "n div 4096 div 64 = m div 4096 div 64"
        using assms(1) by (simp add: div_mult2_eq[symmetric])
      then have "n div 4096 = m div 4096"
        using assms(2) d[of "n div 4096"] d[of "m div 4096"] by simp
      then show ?thesis by (simp add: div_mult2_eq[symmetric])
    qed
    then show ?thesis
      using assms(3) d[of "n div 64"] d[of "m div 64"] by simp
  qed
  then show ?thesis using assms(4) d[of n] d[of m] by simp
qed

lemma bytes3_determine:
  fixes a b c a' b' c' :: nat
  assumes "a < 256" "b < 256" "c < 256" "a' < 256" "b' < 256" "c' < 256"
    and "a * 65536 + b * 256 + c = a' * 65536 + b' * 256 + c'"
  shows "a = a' \<and> b = b' \<and> c = c'"
proof -
  have a: "a = a'" using assms by linarith
  have b: "b = b'" using assms a by linarith
  show ?thesis using assms a b by simp
qed

lemma bytes2_determine:
  fixes a b a' b' :: nat
  assumes "a < 256" "b < 256" "a' < 256" "b' < 256"
    and "a * 1024 + b * 4 = a' * 1024 + b' * 4"
  shows "a = a' \<and> b = b'"
proof -
  have a: "a = a'" using assms by linarith
  show ?thesis using assms a by simp
qed

lemma group3_inj:
  fixes a b c a' b' c' :: "8 word"
  assumes "base64url [a, b, c] = base64url [a', b', c']"
  shows "a = a' \<and> b = b' \<and> c = c'"
proof -
  define n where "n = unat a * 65536 + unat b * 256 + unat c"
  define m where "m = unat a' * 65536 + unat b' * 256 + unat c'"
  have n: "n < 16777216"
    unfolding n_def using byte_bound[of a] byte_bound[of b] byte_bound[of c] by linarith
  have m: "m < 16777216"
    unfolding m_def using byte_bound[of a'] byte_bound[of b'] byte_bound[of c'] by linarith
  from assms have d: "digit64 (n div 262144) = digit64 (m div 262144)"
    "digit64 (n div 4096 mod 64) = digit64 (m div 4096 mod 64)"
    "digit64 (n div 64 mod 64) = digit64 (m div 64 mod 64)"
    "digit64 (n mod 64) = digit64 (m mod 64)"
    by (simp_all add: Let_def n_def m_def)
  have "n div 262144 = m div 262144"
    using d(1) n m by (intro digit64_inj) simp_all
  moreover have "n div 4096 mod 64 = m div 4096 mod 64"
    using d(2) by (intro digit64_inj) simp_all
  moreover have "n div 64 mod 64 = m div 64 mod 64"
    using d(3) by (intro digit64_inj) simp_all
  moreover have "n mod 64 = m mod 64"
    using d(4) by (intro digit64_inj) simp_all
  ultimately have "n = m" by (rule sextets_determine)
  then have "unat a = unat a' \<and> unat b = unat b' \<and> unat c = unat c'"
    unfolding n_def m_def
    using byte_bound[of a] byte_bound[of b] byte_bound[of c]
      byte_bound[of a'] byte_bound[of b'] byte_bound[of c']
    by (intro bytes3_determine) simp_all
  then show ?thesis by (simp add: word_unat_eq_iff)
qed

lemma group2_inj:
  fixes a b a' b' :: "8 word"
  assumes "base64url [a, b] = base64url [a', b']"
  shows "a = a' \<and> b = b'"
proof -
  define n where "n = unat a * 1024 + unat b * 4"
  define m where "m = unat a' * 1024 + unat b' * 4"
  have n: "n < 262144" unfolding n_def using byte_bound[of a] byte_bound[of b] by linarith
  have m: "m < 262144" unfolding m_def using byte_bound[of a'] byte_bound[of b'] by linarith
  from assms have d: "digit64 (n div 4096) = digit64 (m div 4096)"
    "digit64 (n div 64 mod 64) = digit64 (m div 64 mod 64)"
    "digit64 (n mod 64) = digit64 (m mod 64)"
    by (simp_all add: Let_def n_def m_def)
  have "n div 4096 = m div 4096" using d(1) n m by (intro digit64_inj) simp_all
  then have "n div 262144 = m div 262144 \<and> n div 4096 mod 64 = m div 4096 mod 64"
    using n m by simp
  moreover have "n div 64 mod 64 = m div 64 mod 64" using d(2) by (intro digit64_inj) simp_all
  moreover have "n mod 64 = m mod 64" using d(3) by (intro digit64_inj) simp_all
  ultimately have "n = m" using sextets_determine[of n m] by simp
  then have "unat a = unat a' \<and> unat b = unat b'"
    unfolding n_def m_def
    using byte_bound[of a] byte_bound[of b] byte_bound[of a'] byte_bound[of b']
    by (intro bytes2_determine) simp_all
  then show ?thesis by (simp add: word_unat_eq_iff)
qed

lemma group1_inj:
  fixes a a' :: "8 word"
  assumes "base64url [a] = base64url [a']"
  shows "a = a'"
proof -
  define n where "n = unat a * 16"
  define m where "m = unat a' * 16"
  have n: "n < 4096" unfolding n_def using byte_bound[of a] by linarith
  have m: "m < 4096" unfolding m_def using byte_bound[of a'] by linarith
  from assms have d: "digit64 (n div 64) = digit64 (m div 64)"
    "digit64 (n mod 64) = digit64 (m mod 64)"
    by (simp_all add: Let_def n_def m_def)
  have "n div 64 = m div 64" using d(1) n m by (intro digit64_inj) simp_all
  moreover have "n mod 64 = m mod 64" using d(2) by (intro digit64_inj) simp_all
  ultimately have "n = m" by (metis div_mult_mod_eq)
  then have "unat a = unat a'" unfolding n_def m_def by simp
  then show ?thesis by (simp add: word_unat_eq_iff)
qed

lemma base64url_same_length:
  assumes "base64url xs = base64url ys"
  shows "length xs = length ys"
proof -
  from assms have "length (base64url xs) = length (base64url ys)" by simp
  then have "(4 * length xs + 2) div 3 = (4 * length ys + 2) div 3"
    by (simp only: base64url_length)
  then show ?thesis by linarith
qed

lemma base64url_group:
  "base64url (a # b # c # rest) = base64url [a, b, c] @ base64url rest"
  by (simp add: Let_def)

lemma list_of_length_3:
  assumes "length ys = Suc (Suc (Suc n))"
  obtains a b c rest where "ys = a # b # c # rest"
proof -
  from assms obtain a r1 where 1: "ys = a # r1" "length r1 = Suc (Suc n)"
    by (cases ys) simp_all
  from 1(2) obtain b r2 where 2: "r1 = b # r2" "length r2 = Suc n"
    by (cases r1) simp_all
  from 2(2) obtain c r3 where 3: "r2 = c # r3"
    by (cases r2) simp_all
  show ?thesis using that[of a b c r3] 1 2 3 by simp
qed

lemma list_of_length_2:
  assumes "length ys = Suc (Suc 0)"
  obtains a b where "ys = [a, b]"
proof -
  from assms obtain a r1 where 1: "ys = a # r1" "length r1 = Suc 0"
    by (cases ys) simp_all
  from 1(2) obtain b where 2: "r1 = [b]"
    by (cases r1) simp_all
  show ?thesis using that[of a b] 1 2 by simp
qed

lemma list_of_length_1:
  assumes "length ys = Suc 0"
  obtains a where "ys = [a]"
  using assms by (cases ys) simp_all

lemma base64url_inj:
  assumes "base64url xs = base64url ys"
  shows "xs = ys"
  using assms
proof (induction xs arbitrary: ys rule: base64url.induct)
  case (1 a b c rest)
  from base64url_same_length[OF 1(2)] have "length ys = Suc (Suc (Suc (length rest)))" by simp
  then obtain a' b' c' rest' where ys: "ys = a' # b' # c' # rest'"
    by (rule list_of_length_3)
  from 1(2) have "base64url [a, b, c] @ base64url rest = base64url [a', b', c'] @ base64url rest'"
    unfolding ys base64url_group[of a b c rest] base64url_group[of a' b' c' rest'] .
  then have "base64url [a, b, c] = base64url [a', b', c'] \<and> base64url rest = base64url rest'"
    by (simp add: Let_def)
  then show ?case using group3_inj[of a b c a' b' c'] 1(1)[of rest'] by (simp add: ys)
next
  case (2 a b)
  from base64url_same_length[OF 2] have "length ys = Suc (Suc 0)" by simp
  then obtain a' b' where ys: "ys = [a', b']"
    by (rule list_of_length_2)
  with 2 show ?case using group2_inj[of a b a' b'] by simp
next
  case (3 a)
  from base64url_same_length[OF 3] have "length ys = Suc 0" by simp
  then obtain a' where ys: "ys = [a']"
    by (rule list_of_length_1)
  with 3 show ?case using group1_inj[of a a'] by simp
next
  case 4
  from base64url_same_length[OF 4] show ?case by simp
qed

lemma indexOf_first:
  assumes "c \<notin> set xs"
  shows "indexOf (xs @ c # ys) c = int (length xs)"
  using assms by (induction xs) (auto simp: Let_def)

lemma slice_after_slash:
  assumes "CHR ''/'' \<notin> set ty"
  shows "slice (ty @ ''/'' @ sub) (indexOf (ty @ ''/'' @ sub) CHR ''/'' + 1) = sub"
  using indexOf_first[OF assms, of sub] by (simp add: slice_def nat_add_distrib)

section \<open>Classification lemmas\<close>

lemma aspect_of_numeric_output:
  assumes "map_of obj ''streams'' = Some (JArray (JObject st # others))"
    and "map_of st ''width'' = Some (JNumber width)"
    and "map_of st ''height'' = Some (JNumber height)"
  shows "aspect_of_output (Some (JObject obj)) = Inr (classify (js_div height width))"
  using assms by (simp add: aspect_of_output_def)

lemma classify_iff:
  "(classify r = Portrait \<longleftrightarrow> within_tolerance r portrait) \<and>
   (classify r = Landscape \<longleftrightarrow> within_tolerance r landscape) \<and>
   (classify r = Other \<longleftrightarrow> \<not> within_tolerance r portrait \<and> \<not> within_tolerance r landscape)"
  using bands_disjoint[of r] by (auto simp: classify_def)

lemma classify_lit_1: "classify (js_lit 1) = Other"
  unfolding lit1 classify_def using one_not_portrait one_not_landscape by simp

lemma classify_lit_1778: "classify (js_lit (1778 / 1000)) = Portrait"
  unfolding lit_1778m classify_def using r1778_portrait by simp

lemma far_from_centre:
  assumes "1 / 2 \<le> \<bar>with_sign s x - with_sign t c\<bar>"
  shows "\<not> within_tolerance (Finite s x) (Finite t c)"
  using within_tolerance_close[of s x t c] assms by auto

section \<open>The other sample runs and the tokens\<close>

lemma sample_bytes_token:
  "base64url (take 32 sample_bytes) = ''NGC-MSAeaf7aoO7ouZl_XHwpmf2v5ZMlPNZUr0361xQ''"
  unfolding sample_bytes_def by (simp add: digit64_def base64url_alphabet_def)

lemma landscape_aspect: "aspect_of_output (Some landscape_probe) = Inr Landscape"
proof -
  have "js_div (Finite False 1080) (Finite False 1920) = landscape"
    unfolding landscape_val
    using round_binary64_eval[of "1080 / 1920" "- 1" 5066549580791808 False] by simp
  then show ?thesis
    using classify_9_16
    by (simp add: aspect_of_output_def landscape_probe_def landscape_def)
qed

lemma square_aspect: "aspect_of_output (Some square_probe) = Inr Other"
  using div_1_1 classify_1_1 by (simp add: aspect_of_output_def square_probe_def lit1)

lemma alphabet_no_slash: "CHR ''/'' \<notin> set (base64url xs)"
  using base64url_chars[of xs] by (auto simp: base64url_alphabet_def)

lemma base64url_inj_on: "inj base64url"
  by (rule injI) (rule base64url_inj)

lemma byte_strings_card: "card {xs :: bytes. length xs = 32} = 2 ^ 256"
proof -
  have "card {xs :: bytes. set xs \<subseteq> UNIV \<and> length xs = 32} = card (UNIV :: 8 word set) ^ 32"
    by (rule card_lists_length_eq) simp
  then show ?thesis by (simp add: card_word)
qed

lemma tokens_card: "card (base64url ` {xs. length xs = 32}) = 2 ^ 256"
proof -
  have "card (base64url ` {xs. length xs = 32}) = card {xs :: bytes. length xs = 32}"
    by (rule card_image) (rule inj_on_subset[OF base64url_inj_on], simp)
  then show ?thesis by (simp only: byte_strings_card)
qed

section \<open>Staged files on every exit path\<close>




section \<open>The classification rule\<close>

text \<open>
  Claim C2. For probe output whose first stream carries a numeric width and height (any
  numbers, the positive ones among them), \<^verbatim>\<open>getVideoAspectRatio\<close> returns the class of
  \<open>ratio = height / width\<close>: \<open>Portrait\<close> exactly when \<open>|ratio - 16/9| < 0.01\<close>,
  \<open>Landscape\<close> exactly when \<open>|ratio - 9/16| < 0.01\<close>, and \<open>Other\<close> exactly when neither
  holds. The division, the subtraction, the absolute value, the comparison and the three
  constants are those of JavaScript numbers (binary64): \<open>16/9\<close> is the double
  \<open>2001599834386887 / 2^50\<close>, \<open>9/16\<close> is exact and \<open>0.01\<close> is the double
  \<open>5764607523034235 / 2^59\<close>. The ratio \<open>16/9\<close> gives \<open>Portrait\<close>, \<open>9/16\<close> gives
  \<open>Landscape\<close>, \<open>1.0\<close> gives \<open>Other\<close> and \<open>1.778\<close> gives \<open>Portrait\<close>.
\<close>

theorem aspect_classification:
  assumes "ffprobe_exit e = Exited 0 out err"
    and "ffprobe_json e = Some (JObject obj)"
    and "map_of obj ''streams'' = Some (JArray (JObject st # others))"
    and "map_of st ''width'' = Some (JNumber width)"
    and "map_of st ''height'' = Some (JNumber height)"
  shows "fst (getVideoAspectRatio e p w) = Inr (classify (js_div height width)) \<and>
     (classify (js_div height width) = Portrait \<longleftrightarrow>
        js_lt (js_abs (js_sub (js_div height width) portrait)) tolerance) \<and>
     (classify (js_div height width) = Landscape \<longleftrightarrow>
        js_lt (js_abs (js_sub (js_div height width) landscape)) tolerance) \<and>
     (classify (js_div height width) = Other \<longleftrightarrow>
        \<not> js_lt (js_abs (js_sub (js_div height width) portrait)) tolerance \<and>
        \<not> js_lt (js_abs (js_sub (js_div height width) landscape)) tolerance) \<and>
     portrait = Finite False (2001599834386887 / 2 ^ 50) \<and>
     landscape = Finite False (9 / 16) \<and>
     tolerance = Finite False (5764607523034235 / 2 ^ 59) \<and>
     classify (js_div (js_lit 16) (js_lit 9)) = Portrait \<and>
     classify (js_div (js_lit 9) (js_lit 16)) = Landscape \<and>
     classify (js_lit 1) = Other \<and>
     classify (js_div (js_lit 1) (js_lit 1)) = Other \<and>
     classify (js_lit (1778 / 1000)) = Portrait \<and>
     classify (js_div (js_lit 1778) (js_lit 1000)) = Portrait"
proof -
  have "fst (getVideoAspectRatio e p w) = Inr (classify (js_div height width))"
    using assms(1) by (simp add: getVideoAspectRatio_def assms(2) aspect_of_numeric_output[OF assms(3-5)])
  then show ?thesis
    using classify_iff[of "js_div height width"] portrait_val landscape_val tolerance_val
      classify_16_9 classify_9_16 classify_lit_1 classify_1_1 classify_lit_1778 classify_1778
    unfolding within_tolerance_def by blast
qed

theorem aspect_classification_witness:
  "fst (getVideoAspectRatio sample_env ''f'' sample_world) = Inr Portrait"
proof -
  have d: "classify portrait = Portrait"
    using within_self[of "2001599834386887 / 2 ^ 50"] by (simp add: classify_def portrait_val)
  show ?thesis
    using aspect_classification[of sample_env "[]" "[]"
        "[(''programs'', JArray []),
          (''streams'', JArray [JObject [(''width'', JNumber (Finite False 1080)),
                                         (''height'', JNumber (Finite False 1920))]])]"
        "[(''width'', JNumber (Finite False 1080)), (''height'', JNumber (Finite False 1920))]"
        "[]" "Finite False 1080" "Finite False 1920" "''f''" sample_world]
    by (simp add: sample_env_fields sample_probe_def round_16_9 d)
qed

section \<open>The record after a failure\<close>

text \<open>
  Claim C3. Whenever the handler fails (an authorization failure, or a failure of staging,
  of the normaliser, of the prober or of the publication, among others), the metadata store is
  as it was and the trace of the request holds no record update. In every run, a record
  update in the trace stands right after an object-store write: \<^verbatim>\<open>updateVideo\<close> is reached
  only after a successful publication.
\<close>

theorem failed_upload_leaves_record:
  "\<exists>evs. trace (snd (handlerUploadVideo c req e w)) = trace w @ evs \<and>
     (isl (fst (handlerUploadVideo c req e w)) \<longrightarrow>
        db (snd (handlerUploadVideo c req e w)) = db w \<and> (\<forall>u. RecordUpdated u \<notin> set evs)) \<and>
     (\<forall>u. RecordUpdated u \<in> set evs \<longrightarrow>
        (\<exists>pre k post. evs = pre @ ObjectPut k # RecordUpdated u # post))"
proof (cases "\<exists>v f. accepted req e w v f")
  case False
  then have "snd (handlerUploadVideo c req e w) = w" using handler_rejected[of req e w c] by blast
  then show ?thesis by simp
next
  case True
  then obtain v f where acc: "accepted req e w v f" by blast
  show ?thesis
    unfolding handler_accepted[OF acc] by (rule pipeline_leaves_record)
qed

theorem failed_upload_leaves_record_witness:
  "isl (fst (handlerUploadVideo sample_cfg sample_request
          (sample_env\<lparr>s3_error := Some ''timeout''\<rparr>) sample_world)) \<and>
   db (snd (handlerUploadVideo sample_cfg sample_request
          (sample_env\<lparr>s3_error := Some ''timeout''\<rparr>) sample_world)) = db sample_world"
proof -
  have acc: "accepted sample_request (sample_env\<lparr>s3_error := Some ''timeout''\<rparr>) sample_world
               sample_video sample_upload"
    using sample_accepted
      accepted_env[of "sample_env\<lparr>s3_error := Some ''timeout''\<rparr>" sample_env] by simp
  have "fst (handlerUploadVideo sample_cfg sample_request
          (sample_env\<lparr>s3_error := Some ''timeout''\<rparr>) sample_world) = Inl (Thrown ''timeout'')"
    unfolding handler_accepted[OF acc]
    by (simp add: upload_pipeline_outcome sample_env_def sample_aspect produced_def)
  then show ?thesis
    using failed_upload_leaves_record[of sample_cfg sample_request
        "sample_env\<lparr>s3_error := Some ''timeout''\<rparr>" sample_world]
    by (elim exE conjE) simp
qed

section \<open>Rejected payloads\<close>

text \<open>
  Claim C4. When the form carries no \<^verbatim>\<open>video\<close> file (nothing, or a string), a file larger
  than the maximum, or a file whose declared type is not \<^verbatim>\<open>video/mp4\<close>, the handler fails
  and returns the world exactly as it found it: no file is written, no process is spawned
  (the trace is unchanged), nothing is stored. When the id, the identity and the ownership
  checks pass, the failure is a \<open>BadRequestError\<close>. The wrong-type rejection and the
  oversize rejection have the same (empty) effect.
\<close>

theorem invalid_payload_rejected:
  assumes "formData req = Inr form"
    and "form ''video'' = None \<or> (\<exists>s. form ''video'' = Some (FormString s)) \<or>
         (\<exists>f. form ''video'' = Some (FormFile f) \<and>
              (MAX_UPLOAD_SIZE < int (file_size f) \<or> file_type f \<noteq> ''video/mp4''))"
  shows "snd (handlerUploadVideo c req e w) = w \<and>
         isl (fst (handlerUploadVideo c req e w)) \<and>
         ((\<exists>vid v. videoId req = Some vid \<and> vid \<noteq> [] \<and> db w vid = Some v \<and>
                   auth e = Inr (userID v)) \<longrightarrow>
          (\<exists>msg. fst (handlerUploadVideo c req e w) = Inl (BadRequestError msg)))"
proof -
  have "\<not> accepted req e w v f" for v f
    using assms by (auto simp: accepted_def getVideo_def split: option.splits)
  then have a: "snd (handlerUploadVideo c req e w) = w \<and> isl (fst (handlerUploadVideo c req e w))"
    by (rule handler_rejected)
  have "\<exists>msg. fst (handlerUploadVideo c req e w) = Inl (BadRequestError msg)"
    if "videoId req = Some vid" "vid \<noteq> []" "db w vid = Some v" "auth e = Inr (userID v)" for vid v
    using assms that by (auto simp: handlerUploadVideo_def getVideo_def)
  with a show ?thesis by blast
qed

theorem invalid_payload_rejected_witness:
  "handlerUploadVideo sample_cfg
     \<lparr>videoId = Some ''v1'',
      formData = Inr [''video'' \<mapsto> FormFile \<lparr>file_type = ''video/webm'', file_bytes = [1, 2, 3]\<rparr>]\<rparr>
     sample_env sample_world = (Inl (BadRequestError ''Bad File Type.''), sample_world) \<and>
   handlerUploadVideo sample_cfg \<lparr>videoId = Some ''v1'', formData = Inr Map.empty\<rparr>
     sample_env sample_world = (Inl (BadRequestError ''Thumbnail was not a File.''), sample_world)"
  using invalid_payload_rejected[of
      "\<lparr>videoId = Some ''v1'',
        formData = Inr [''video'' \<mapsto> FormFile \<lparr>file_type = ''video/webm'', file_bytes = [1, 2, 3]\<rparr>]\<rparr>"
      "[''video'' \<mapsto> FormFile \<lparr>file_type = ''video/webm'', file_bytes = [1, 2, 3]\<rparr>]"
      sample_cfg sample_env sample_world]
    invalid_payload_rejected[of "\<lparr>videoId = Some ''v1'', formData = Inr Map.empty\<rparr>"
      Map.empty sample_cfg sample_env sample_world]
  by (simp add: handlerUploadVideo_def getVideo_def sample_env_def sample_world_def sample_video_def
      file_size_def MAX_UPLOAD_SIZE_val)

section \<open>The storage key\<close>

lemma aspect_name_cases:
  "aspect_name a =
     (case a of Portrait \<Rightarrow> ''portrait'' | Landscape \<Rightarrow> ''landscape'' | Other \<Rightarrow> ''other'')"
  by (cases a) simp_all

lemma staged_name_plain:
  "CHR ''/'' \<notin> set (base64url xs @ ''.mp4'')" "base64url xs @ ''.mp4'' \<noteq> []"
  "base64url xs @ ''.mp4'' \<noteq> ''.''" "base64url xs @ ''.mp4'' \<noteq> ''..''"
proof -
  show "CHR ''/'' \<notin> set (base64url xs @ ''.mp4'')" using alphabet_no_slash[of xs] by simp
  show "base64url xs @ ''.mp4'' \<noteq> []" by simp
  have "length (base64url xs @ ''.mp4'') \<ge> 4" by simp
  then show "base64url xs @ ''.mp4'' \<noteq> ''.''" "base64url xs @ ''.mp4'' \<noteq> ''..''"
    by auto
qed

lemma sample_run_landscape:
  "handlerUploadVideo sample_cfg sample_request landscape_env sample_world =
     (Inr (Response 200 (with_url sample_cfg landscape_env sample_video sample_upload Landscape)),
      cleaned sample_cfg landscape_env sample_video sample_upload Landscape [4, 5, 6] sample_world)"
proof -
  have "accepted sample_request landscape_env sample_world sample_video sample_upload"
    using accepted_env[of landscape_env sample_env] sample_accepted
    by (simp add: landscape_env_def)
  then show ?thesis
    unfolding handler_accepted[OF \<open>accepted sample_request landscape_env sample_world sample_video sample_upload\<close>]
    by (simp add: upload_pipeline_outcome landscape_env_def sample_env_fields landscape_aspect
        produced_def)
qed

lemma sample_run_square:
  "handlerUploadVideo sample_cfg sample_request square_env sample_world =
     (Inr (Response 200 (with_url sample_cfg square_env sample_video sample_upload Other)),
      cleaned sample_cfg square_env sample_video sample_upload Other [4, 5, 6] sample_world)"
proof -
  have "accepted sample_request square_env sample_world sample_video sample_upload"
    using accepted_env[of square_env sample_env] sample_accepted
    by (simp add: square_env_def landscape_env_def)
  then show ?thesis
    unfolding handler_accepted[OF \<open>accepted sample_request square_env sample_world sample_video sample_upload\<close>]
    by (simp add: upload_pipeline_outcome square_env_def landscape_env_def sample_env_fields
        square_aspect produced_def)
qed

text \<open>
  Claim C5. After a successful upload the object store holds the processed file under the
  key \<open>class/token.mp4\<close>, where \<open>class\<close> is \<open>portrait\<close>, \<open>landscape\<close> or
  \<open>other\<close> according to the class the prober's output gave, and the answer carries the
  distribution URL of that key. The token is made once: the staged file is \<open>token.mp4\<close>
  in the assets directory, with the same token. The token is the base64url encoding of the
  32 bytes (256 bits) asked of \<^verbatim>\<open>crypto.randomBytes\<close>: 43 characters among letters,
  digits, \<open>-\<close> and \<open>_\<close>; the encoding loses nothing (it is injective), so the
  tokens of the \<open>2 ^ 256\<close> strings of 32 bytes are \<open>2 ^ 256\<close> different tokens, and
  the token has the entropy of the bytes. The extension is the part of the declared media
  type after the first \<open>/\<close>, unchanged, whatever the type: in the name of the staged
  file, and in the key of every successful run of lines 42 to 72 on a file of that type.
  The bytes of the random source are an input: that \<^verbatim>\<open>crypto.randomBytes\<close> is
  cryptographically secure is the library's property.
\<close>

theorem storage_key_shape:
  assumes "accepted req e w v f"
    and "fst (handlerUploadVideo c req e w) = Inr resp"
    and "length (randomBytes e 32) = 32"
  shows "\<exists>a bs token.
      token = base64url (randomBytes e 32) \<and>
      aspect_of_output (ffprobe_json e) = Inr a \<and>
      s3 (snd (handlerUploadVideo c req e w)) =
        (s3 w)((case a of Portrait \<Rightarrow> ''portrait'' | Landscape \<Rightarrow> ''landscape''
                | Other \<Rightarrow> ''other'') @ ''/'' @ token @ ''.mp4''
               \<mapsto> (bs, ''video/mp4'')) \<and>
      resp = Response 200
        (v\<lparr>videoURL := Some (s3CfDistribution c @ ''/'' @
            (case a of Portrait \<Rightarrow> ''portrait'' | Landscape \<Rightarrow> ''landscape''
             | Other \<Rightarrow> ''other'') @ ''/'' @ token @ ''.mp4'')\<rparr>) \<and>
      (\<exists>dir. filePath c e f = dir @ token @ ''.mp4'' \<and> (dir = [] \<or> last dir = CHR ''/'')) \<and>
      length token = 43 \<and>
      set token \<subseteq> set ''ABCDEFGHIJKLMNOPQRSTUVWXYZabcdefghijklmnopqrstuvwxyz0123456789-_'' \<and>
      (\<forall>xs. base64url xs = token \<longrightarrow> xs = randomBytes e 32) \<and>
      card (base64url ` {xs. length xs = 32}) = 2 ^ 256 \<and>
      (\<forall>ty sub. CHR ''/'' \<notin> set ty \<longrightarrow>
         staged_name e (f\<lparr>file_type := ty @ ''/'' @ sub\<rparr>) = token @ ''.'' @ sub) \<and>
      (\<forall>g ty sub r. CHR ''/'' \<notin> set ty \<and> file_type g = ty @ ''/'' @ sub \<and>
           fst (upload_pipeline c e v g w) = Inr r \<longrightarrow>
         (\<exists>a' bs'. s3 (snd (upload_pipeline c e v g w)) =
            (s3 w)((case a' of Portrait \<Rightarrow> ''portrait'' | Landscape \<Rightarrow> ''landscape''
                    | Other \<Rightarrow> ''other'') @ ''/'' @ token @ ''.'' @ sub
                   \<mapsto> (bs', ty @ ''/'' @ sub))))"
proof -
  let ?token = "base64url (randomBytes e 32)"
  have ty: "file_type f = ''video/mp4''"
    using assms(1) by (simp add: accepted_def getVideo_def split: option.splits sum.splits)
  have name: "staged_name e f = ?token @ ''.mp4''"
    using slice_after_slash[of "''video''" "''mp4''"] by (simp add: staged_name_def ty)
  have gen: "staged_name e g = ?token @ ''.'' @ sub"
    if "CHR ''/'' \<notin> set ty" "file_type g = ty @ ''/'' @ sub" for g ty sub
    using slice_after_slash[OF that(1), of sub] by (simp add: staged_name_def that(2))
  have gen': "staged_name e (f\<lparr>file_type := ty @ ''/'' @ sub\<rparr>) = ?token @ ''.'' @ sub"
    if "CHR ''/'' \<notin> set ty" for ty sub
    using gen[OF that, of "f\<lparr>file_type := ty @ ''/'' @ sub\<rparr>" sub] by simp
  have len: "length ?token = 43"
    by (simp add: base64url_length assms(3))
  have chars: "set ?token \<subseteq>
      set ''ABCDEFGHIJKLMNOPQRSTUVWXYZabcdefghijklmnopqrstuvwxyz0123456789-_''"
    using base64url_chars[of "randomBytes e 32"] unfolding base64url_alphabet_def .
  have inj: "xs = randomBytes e 32" if "base64url xs = ?token" for xs
    using that by (rule base64url_inj)
  have staged: "\<exists>dir. filePath c e f = dir @ ?token @ ''.mp4'' \<and>
      (dir = [] \<or> last dir = CHR ''/'')"
    using path_join_file[OF staged_name_plain[of "randomBytes e 32"], of "assetsRoot c"]
    by (simp add: filePath_def name)
  have keys: "\<exists>a' bs'. s3 (snd (upload_pipeline c e v g w)) =
      (s3 w)((case a' of Portrait \<Rightarrow> ''portrait'' | Landscape \<Rightarrow> ''landscape''
              | Other \<Rightarrow> ''other'') @ ''/'' @ ?token @ ''.'' @ sub
             \<mapsto> (bs', ty @ ''/'' @ sub))"
    if "CHR ''/'' \<notin> set ty" "file_type g = ty @ ''/'' @ sub"
      "fst (upload_pipeline c e v g w) = Inr r" for g ty sub r
  proof -
    from that(3) obtain a' bs' where
      "upload_pipeline c e v g w =
         (Inr (Response 200 (with_url c e v g a')), cleaned c e v g a' bs' w)"
      by (cases rule: pipeline_cases[of e c v g w]) simp_all
    then have "s3 (snd (upload_pipeline c e v g w)) =
      (s3 w)((case a' of Portrait \<Rightarrow> ''portrait'' | Landscape \<Rightarrow> ''landscape''
              | Other \<Rightarrow> ''other'') @ ''/'' @ ?token @ ''.'' @ sub
             \<mapsto> (bs', ty @ ''/'' @ sub))"
      by (simp add: object_key_def gen[OF that(1,2)] that(2) aspect_name_cases)
    then show ?thesis by blast
  qed
  from assms(2) obtain a bs where
    a: "aspect_of_output (ffprobe_json e) = Inr a"
    and r: "upload_pipeline c e v f w =
      (Inr (Response 200 (with_url c e v f a)), cleaned c e v f a bs w)"
    unfolding handler_accepted[OF assms(1)]
    by (cases rule: pipeline_cases[of e c v f w]) simp_all
  have key: "s3 (snd (handlerUploadVideo c req e w)) =
        (s3 w)((case a of Portrait \<Rightarrow> ''portrait'' | Landscape \<Rightarrow> ''landscape''
                | Other \<Rightarrow> ''other'') @ ''/'' @ ?token @ ''.mp4''
               \<mapsto> (bs, ''video/mp4''))"
    unfolding handler_accepted[OF assms(1)] r
    by (simp add: object_key_def name ty aspect_name_cases)
  have url: "resp = Response 200
        (v\<lparr>videoURL := Some (s3CfDistribution c @ ''/'' @
            (case a of Portrait \<Rightarrow> ''portrait'' | Landscape \<Rightarrow> ''landscape''
             | Other \<Rightarrow> ''other'') @ ''/'' @ ?token @ ''.mp4'')\<rparr>)"
    using assms(2) unfolding handler_accepted[OF assms(1)] r
    by (simp add: with_url_def object_key_def name aspect_name_cases)
  show ?thesis
    apply (rule exI[of _ a], rule exI[of _ bs], rule exI[of _ ?token])
    apply (intro conjI allI impI)
    subgoal by (rule refl)
    subgoal by (rule a)
    subgoal by (rule key)
    subgoal by (rule url)
    subgoal by (rule staged)
    subgoal by (rule len)
    subgoal by (rule chars)
    subgoal by (erule inj)
    subgoal by (rule tokens_card)
    subgoal by (erule gen')
    subgoal by (elim conjE) (erule (2) keys)
    done
qed

theorem storage_key_shape_witness:
  "s3 (snd (handlerUploadVideo sample_cfg sample_request sample_env sample_world))
     ''portrait/AAAAAAAAAAAAAAAAAAAAAAAAAAAAAAAAAAAAAAAAAAA.mp4'' \<noteq> None \<and>
   s3 (snd (handlerUploadVideo sample_cfg sample_request landscape_env sample_world))
     ''landscape/NGC-MSAeaf7aoO7ouZl_XHwpmf2v5ZMlPNZUr0361xQ.mp4'' \<noteq> None \<and>
   s3 (snd (handlerUploadVideo sample_cfg sample_request square_env sample_world))
     ''other/NGC-MSAeaf7aoO7ouZl_XHwpmf2v5ZMlPNZUr0361xQ.mp4'' \<noteq> None \<and>
   length ''NGC-MSAeaf7aoO7ouZl_XHwpmf2v5ZMlPNZUr0361xQ'' = 43"
proof -
  have l: "length (randomBytes sample_env 32) = 32" by (simp add: sample_env_def)
  have r: "fst (handlerUploadVideo sample_cfg sample_request sample_env sample_world) =
      Inr (Response 200 (with_url sample_cfg sample_env sample_video sample_upload Portrait))"
    by (simp add: sample_run)
  have acc: "accepted sample_request landscape_env sample_world sample_video sample_upload"
    using accepted_env[of landscape_env sample_env] sample_accepted
    by (simp add: landscape_env_def)
  have l': "length (randomBytes landscape_env 32) = 32"
    by (simp add: landscape_env_def sample_bytes_def)
  have r': "fst (handlerUploadVideo sample_cfg sample_request landscape_env sample_world) =
      Inr (Response 200 (with_url sample_cfg landscape_env sample_video sample_upload Landscape))"
    by (simp add: sample_run_landscape)
  have t': "base64url (randomBytes landscape_env 32) =
      ''NGC-MSAeaf7aoO7ouZl_XHwpmf2v5ZMlPNZUr0361xQ''"
    using sample_bytes_token by (simp add: landscape_env_def)
  have j': "ffprobe_json landscape_env = Some landscape_probe"
    by (simp add: landscape_env_def)
  have acc'': "accepted sample_request square_env sample_world sample_video sample_upload"
    using accepted_env[of square_env sample_env] sample_accepted
    by (simp add: square_env_def landscape_env_def)
  have l'': "length (randomBytes square_env 32) = 32"
    by (simp add: square_env_def landscape_env_def sample_bytes_def)
  have r'': "fst (handlerUploadVideo sample_cfg sample_request square_env sample_world) =
      Inr (Response 200 (with_url sample_cfg square_env sample_video sample_upload Other))"
    by (simp add: sample_run_square)
  have t'': "base64url (randomBytes square_env 32) =
      ''NGC-MSAeaf7aoO7ouZl_XHwpmf2v5ZMlPNZUr0361xQ''"
    using sample_bytes_token by (simp add: square_env_def landscape_env_def)
  have j'': "ffprobe_json square_env = Some square_probe"
    by (simp add: square_env_def)
  from storage_key_shape[OF sample_accepted r l] have
    "s3 (snd (handlerUploadVideo sample_cfg sample_request sample_env sample_world))
       ''portrait/AAAAAAAAAAAAAAAAAAAAAAAAAAAAAAAAAAAAAAAAAAA.mp4'' \<noteq> None"
    by (auto simp: sample_token sample_env_fields sample_aspect)
  moreover from storage_key_shape[OF acc r' l'] have
    "s3 (snd (handlerUploadVideo sample_cfg sample_request landscape_env sample_world))
       ''landscape/NGC-MSAeaf7aoO7ouZl_XHwpmf2v5ZMlPNZUr0361xQ.mp4'' \<noteq> None"
    by (auto simp: t' j' landscape_aspect)
  moreover from storage_key_shape[OF acc'' r'' l''] have
    "s3 (snd (handlerUploadVideo sample_cfg sample_request square_env sample_world))
       ''other/NGC-MSAeaf7aoO7ouZl_XHwpmf2v5ZMlPNZUr0361xQ.mp4'' \<noteq> None"
    by (auto simp: t'' j'' square_aspect)
  ultimately show ?thesis by simp
qed

section \<open>The ownership check\<close>

text \<open>
  Claim C6. For a request with a video id and an authenticated identity, the handler
  looks the record up by id: it fails with \<open>NotFoundError\<close> when there is none and with
  \<open>UserForbiddenError\<close> when the record's owner is not the identity, in both cases
  leaving the world as it was. Whenever the handler changes anything at all (a staged file,
  a spawned process, a stored object, the record), the record exists and the identity owns
  it: the check comes before local staging and before the object store is written.
\<close>

theorem ownership_check:
  assumes "videoId req = Some vid" and "vid \<noteq> []" and "auth e = Inr uid"
  shows "(db w vid = None \<longrightarrow>
            handlerUploadVideo c req e w = (Inl (NotFoundError ''Video not found.''), w)) \<and>
         (\<forall>v. db w vid = Some v \<and> userID v \<noteq> uid \<longrightarrow>
            handlerUploadVideo c req e w = (Inl (UserForbiddenError ''Forbidden.''), w)) \<and>
         (snd (handlerUploadVideo c req e w) \<noteq> w \<longrightarrow>
            (\<exists>v. db w vid = Some v \<and> userID v = uid))"
  using assms
  by (auto simp: handlerUploadVideo_def getVideo_def split: option.splits)

theorem ownership_check_witness:
  "handlerUploadVideo sample_cfg sample_request (sample_env\<lparr>auth := Inr ''mallory''\<rparr>)
     sample_world = (Inl (UserForbiddenError ''Forbidden.''), sample_world) \<and>
   handlerUploadVideo sample_cfg sample_request sample_env (sample_world\<lparr>db := Map.empty\<rparr>)
     = (Inl (NotFoundError ''Video not found.''), sample_world\<lparr>db := Map.empty\<rparr>)"
  using ownership_check[of sample_request "''v1''" "sample_env\<lparr>auth := Inr ''mallory''\<rparr>"
      "''mallory''" sample_world sample_cfg]
    ownership_check[of sample_request "''v1''" sample_env "''alice''"
      "sample_world\<lparr>db := Map.empty\<rparr>" sample_cfg]
  by (simp add: sample_request_def sample_env_def sample_world_def sample_video_def)

section \<open>The order of the stages\<close>

lemma file_step_simps [simp]:
  "file_step S (FileWritten p) = insert p S"
  "file_step S (FileDeleted p) = S - {p}"
  "file_step S (ProcessSpawned args) = S"
  "file_step S (ObjectPut k) = S"
  "file_step S (RecordUpdated u) = S"
  by (simp_all add: file_step_def)

lemma ffmpeg_events_replay:
  "foldl file_step S (ffmpeg_events c e f) =
     (case ffmpeg_output e of None \<Rightarrow> S | Some bs \<Rightarrow> insert (processedFilePath c e f) S)"
  by (simp add: ffmpeg_events_def split: option.splits)

lemma staged_dom: "dom (files (staged c e f w)) = insert (filePath c e f) (dom (files w))"
  by simp

lemma transcoded_dom:
  "dom (files (transcoded c e f w)) =
     (case ffmpeg_output e of
        None \<Rightarrow> insert (filePath c e f) (dom (files w))
      | Some bs \<Rightarrow> insert (processedFilePath c e f) (insert (filePath c e f) (dom (files w))))"
  by (auto simp: dom_def transcoded_files produced_def split: option.splits if_splits)

lemma normalised_dom:
  "dom (files (normalised c e f w)) = dom (files (transcoded c e f w)) - {filePath c e f}"
  by (simp add: normalised_def)

lemma cleaned_dom:
  "dom (files (cleaned c e v f a bs w)) =
     dom (files (transcoded c e f w)) - {filePath c e f} - {processedFilePath c e f}"
  by (simp add: cleaned_def normalised_dom)

lemma probe_not_in_ffmpeg_events [simp]:
  "ProcessSpawned (ffprobe_args p) \<notin> set (ffmpeg_events c e f)"
  by (simp add: ffmpeg_events_def ffmpeg_args_def ffprobe_args_def split: option.splits)

text \<open>The effects of a run and the files they leave.\<close>

lemma pipeline_trace_files:
  "\<exists>evs a. trace (snd (upload_pipeline c e v f w)) = trace w @ evs \<and>
     prefix evs (expected_trace c e v f a) \<and>
     (\<not> isl (fst (upload_pipeline c e v f w)) \<longrightarrow>
        evs = expected_trace c e v f a \<and> aspect_of_output (ffprobe_json e) = Inr a) \<and>
     dom (files (snd (upload_pipeline c e v f w))) = foldl file_step (dom (files w)) evs \<and>
     (ProcessSpawned (ffprobe_args (processedFilePath c e f)) \<in> set evs \<longrightarrow>
        files (snd (upload_pipeline c e v f w)) (filePath c e f) = None)"
proof (cases rule: pipeline_cases[of e c v f w])
  case (stage_failed m)
  then show ?thesis by simp
next
  case (spawn_failed m)
  then show ?thesis by (simp add: expected_trace_alt)
next
  case (ffmpeg_failed code out err)
  then show ?thesis
    by (simp add: expected_trace_alt transcoded_dom ffmpeg_events_replay)
next
  case (probe_spawn_failed out err m)
  then show ?thesis
    by (simp add: expected_trace_alt normalised_dom transcoded_dom ffmpeg_events_replay
        split: option.splits)
next
  case (probe_failed out err code' out' err')
  then show ?thesis
    by (simp add: expected_trace_alt normalised_dom transcoded_dom ffmpeg_events_replay
        normalised_files split: option.splits)
next
  case (output_rejected out err out' err' er)
  then show ?thesis
    by (simp add: expected_trace_alt normalised_dom transcoded_dom ffmpeg_events_replay
        normalised_files split: option.splits)
next
  case (output_missing out err out' err' a)
  then show ?thesis
    by (simp add: expected_trace_alt normalised_dom transcoded_dom ffmpeg_events_replay
        normalised_files split: option.splits)
next
  case (publish_failed out err out' err' a bs m)
  then show ?thesis
    by (simp add: expected_trace_alt normalised_dom transcoded_dom ffmpeg_events_replay
        normalised_files split: option.splits)
next
  case (commit_failed out err out' err' a bs m)
  then show ?thesis
    by (intro exI[of _ "FileWritten (filePath c e f) # ffmpeg_events c e f @
       [FileDeleted (filePath c e f), ProcessSpawned (ffprobe_args (processedFilePath c e f)),
        ObjectPut (object_key e f a)]"] exI[of _ a])
      (simp add: expected_trace_alt normalised_dom transcoded_dom ffmpeg_events_replay
        normalised_files split: option.splits)
next
  case (succeeded out err out' err' a bs)
  then show ?thesis
    by (intro exI[of _ "expected_trace c e v f a"] exI[of _ a])
      (simp add: expected_trace_alt cleaned_dom transcoded_dom ffmpeg_events_replay
        cleaned_files split: option.splits)
qed

lemma card_new_files:
  "A - B \<subseteq> {x} \<Longrightarrow> card (A - B) \<le> 1"
  "A - B \<subseteq> {x, y} \<Longrightarrow> card (A - B) \<le> 2"
proof -
  show "card (A - B) \<le> 1" if "A - B \<subseteq> {x}"
    using card_mono[OF _ that] by simp
  have "card {x, y} \<le> 2" by (simp add: card_insert_if)
  then show "card (A - B) \<le> 2" if "A - B \<subseteq> {x, y}"
    using card_mono[OF _ that] by simp
qed

text \<open>The worlds a successful run goes through, one call of the source after the other.\<close>

lemma pipeline_worlds:
  assumes "\<not> isl (fst (upload_pipeline c e v f w))"
    and "aspect_of_output (ffprobe_json e) = Inr a"
  shows "\<exists>w1 w2 w3 w4 w5 w6 bs.
     bun_write (stage_error e) (filePath c e f) (file_bytes f) w = Inr w1 \<and>
     files w1 = (files w)(filePath c e f \<mapsto> file_bytes f) \<and>
     processVideoForFastStart e (filePath c e f) w1 = (Inr (processedFilePath c e f), w2) \<and>
     files w2 (filePath c e f) = Some (file_bytes f) \<and>
     files w2 (processedFilePath c e f) = Some bs \<and>
     bun_delete (filePath c e f) w2 = Inr w3 \<and>
     files w3 = (files w2)(filePath c e f := None) \<and>
     getVideoAspectRatio e (processedFilePath c e f) w3 = (Inr a, w4) \<and>
     files w4 = files w3 \<and>
     s3_write (s3_error e) (aspect_name a @ ''/'' @ staged_name e f) (processedFilePath c e f)
       (file_type f) w4 = Inr w5 \<and>
     files w5 = files w3 \<and>
     s3 w5 (aspect_name a @ ''/'' @ staged_name e f) = Some (bs, file_type f) \<and>
     updateVideo (updateVideo_error e)
       (v\<lparr>videoURL := Some (s3CfDistribution c @ ''/'' @ aspect_name a @ ''/'' @
                               staged_name e f)\<rparr>) w5 = Inr w6 \<and>
     files w6 = files w3 \<and>
     bun_delete (processedFilePath c e f) w6 = Inr (snd (upload_pipeline c e v f w)) \<and>
     files (snd (upload_pipeline c e v f w)) = (files w3)(processedFilePath c e f := None) \<and>
     card (dom (files w1) - dom (files w)) \<le> 1 \<and>
     card (dom (files w2) - dom (files w)) \<le> 2 \<and>
     card (dom (files w3) - dom (files w)) \<le> 1 \<and>
     dom (files (snd (upload_pipeline c e v f w))) \<subseteq> dom (files w)"
  using assms(1)
proof (cases rule: pipeline_cases[of e c v f w])
  case (succeeded out err out' err' a' bs)
  have a': "a' = a" using succeeded(4) assms(2) by simp
  note s = succeeded[unfolded a']
  have key: "aspect_name a @ ''/'' @ staged_name e f = object_key e f a"
    by (simp add: object_key_def)
  have url: "v\<lparr>videoURL := Some (s3CfDistribution c @ ''/'' @ object_key e f a)\<rparr> =
      with_url c e v f a"
    by (simp add: with_url_def)
  show ?thesis
    unfolding key url
  proof (rule exI[of _ "staged c e f w"], rule exI[of _ "transcoded c e f w"],
      rule exI[of _ "normalised c e f w"], rule exI[of _ "probed c e f w"],
      rule exI[of _ "published c e f a bs w"], rule exI[of _ "committed c e v f a bs w"],
      rule exI[of _ bs], intro conjI)
    show "bun_write (stage_error e) (filePath c e f) (file_bytes f) w = Inr (staged c e f w)"
      by (simp add: s(1) bun_write_ok)
    show "files (staged c e f w) = (files w)(filePath c e f \<mapsto> file_bytes f)" by simp
    show "processVideoForFastStart e (filePath c e f) (staged c e f w) =
        (Inr (processedFilePath c e f), transcoded c e f w)"
      using process_exited[OF s(2), of c f w] by simp
    show "files (transcoded c e f w) (filePath c e f) = Some (file_bytes f)"
      by (simp add: transcoded_files)
    show "files (transcoded c e f w) (processedFilePath c e f) = Some bs"
      by (simp add: transcoded_files s(5))
    show "bun_delete (filePath c e f) (transcoded c e f w) = Inr (normalised c e f w)"
      by (rule delete_raw)
    show "files (normalised c e f w) = (files (transcoded c e f w))(filePath c e f := None)"
      by (simp add: normalised_def)
    show "getVideoAspectRatio e (processedFilePath c e f) (normalised c e f w) =
        (Inr a, probed c e f w)"
      using probe_exited[OF s(3), of c f w] by (simp add: s(4))
    show "files (probed c e f w) = files (normalised c e f w)" by simp
    show "s3_write (s3_error e) (object_key e f a) (processedFilePath c e f) (file_type f)
        (probed c e f w) = Inr (published c e f a bs w)"
      by (simp add: publish_step s(5) s(6))
    show "files (published c e f a bs w) = files (normalised c e f w)" by simp
    show "s3 (published c e f a bs w) (object_key e f a) = Some (bs, file_type f)" by simp
    show "updateVideo (updateVideo_error e) (with_url c e v f a) (published c e f a bs w) =
        Inr (committed c e v f a bs w)"
      by (simp add: commit_step s(7))
    show "files (committed c e v f a bs w) = files (normalised c e f w)" by simp
    show "bun_delete (processedFilePath c e f) (committed c e v f a bs w) =
        Inr (snd (upload_pipeline c e v f w))"
      using delete_processed[OF s(5), of v a bs] by (simp add: s(8))
    show "files (snd (upload_pipeline c e v f w)) =
        (files (normalised c e f w))(processedFilePath c e f := None)"
      by (simp add: s(8) cleaned_def)
    show "card (dom (files (staged c e f w)) - dom (files w)) \<le> 1"
      by (rule card_new_files(1)[of _ _ "filePath c e f"]) auto
    show "card (dom (files (transcoded c e f w)) - dom (files w)) \<le> 2"
      by (rule card_new_files(2)[of _ _ "filePath c e f" "processedFilePath c e f"])
        (auto simp: transcoded_dom split: option.splits)
    show "card (dom (files (normalised c e f w)) - dom (files w)) \<le> 1"
      by (rule card_new_files(1)[of _ _ "processedFilePath c e f"])
        (auto simp: normalised_dom transcoded_dom split: option.splits)
    show "dom (files (snd (upload_pipeline c e v f w))) \<subseteq> dom (files w)"
      by (auto simp: s(8) cleaned_dom transcoded_dom split: option.splits)
  qed
qed simp_all

text \<open>
  Claim C7. For an accepted request, the effects of the handler are a prefix of the
  sequence stage, normalise, delete the raw file, probe the processed file, publish,
  commit, delete the processed file (\<open>expected_trace\<close>), and all of it when the upload
  succeeds: no stage starts before the one before it is done, and the prober is spawned on
  the processed path. The files on disk are the ones these effects leave: the directory
  after the run is the directory before it with each write and each delete of the run
  applied in order, no file other than the raw and the processed one is touched, and in
  every run that reached the prober, failed or not, the raw file is no longer on disk. For
  a successful upload the worlds between the calls are given one by one: the raw file is
  written; the normaliser leaves the processed file beside it (the one moment with two
  staged files); the raw file is deleted; the prober and the object store then read the
  processed path in a directory where the raw file is absent; after the record is updated
  the processed file is deleted too. Counted on the disk, the run has added at most one
  file after staging, at most two after the normaliser, at most one from the first delete
  on, and none at the end.
\<close>

theorem pipeline_order:
  assumes "accepted req e w v f"
  shows "\<exists>evs a.
     trace (snd (handlerUploadVideo c req e w)) = trace w @ evs \<and>
     prefix evs (expected_trace c e v f a) \<and>
     (\<not> isl (fst (handlerUploadVideo c req e w)) \<longrightarrow>
        evs = expected_trace c e v f a \<and> aspect_of_output (ffprobe_json e) = Inr a) \<and>
     (\<forall>p. prefix p evs \<longrightarrow> card (live_files p) \<le> 2) \<and>
     dom (files (snd (handlerUploadVideo c req e w))) = foldl file_step (dom (files w)) evs \<and>
     (\<forall>p. p \<noteq> filePath c e f \<and> p \<noteq> processedFilePath c e f \<longrightarrow>
        files (snd (handlerUploadVideo c req e w)) p = files w p) \<and>
     (ProcessSpawned (ffprobe_args (processedFilePath c e f)) \<in> set evs \<longrightarrow>
        files (snd (handlerUploadVideo c req e w)) (filePath c e f) = None) \<and>
     (\<not> isl (fst (handlerUploadVideo c req e w)) \<longrightarrow>
        (\<exists>w1 w2 w3 w4 w5 w6 bs.
           bun_write (stage_error e) (filePath c e f) (file_bytes f) w = Inr w1 \<and>
           files w1 = (files w)(filePath c e f \<mapsto> file_bytes f) \<and>
           processVideoForFastStart e (filePath c e f) w1 =
             (Inr (processedFilePath c e f), w2) \<and>
           files w2 (filePath c e f) = Some (file_bytes f) \<and>
           files w2 (processedFilePath c e f) = Some bs \<and>
           bun_delete (filePath c e f) w2 = Inr w3 \<and>
           files w3 = (files w2)(filePath c e f := None) \<and>
           getVideoAspectRatio e (processedFilePath c e f) w3 = (Inr a, w4) \<and>
           files w4 = files w3 \<and>
           s3_write (s3_error e) (aspect_name a @ ''/'' @ staged_name e f)
             (processedFilePath c e f) (file_type f) w4 = Inr w5 \<and>
           files w5 = files w3 \<and>
           s3 w5 (aspect_name a @ ''/'' @ staged_name e f) = Some (bs, file_type f) \<and>
           updateVideo (updateVideo_error e)
             (v\<lparr>videoURL := Some (s3CfDistribution c @ ''/'' @ aspect_name a @ ''/'' @
                                     staged_name e f)\<rparr>) w5 = Inr w6 \<and>
           files w6 = files w3 \<and>
           bun_delete (processedFilePath c e f) w6 = Inr (snd (handlerUploadVideo c req e w)) \<and>
           files (snd (handlerUploadVideo c req e w)) =
             (files w3)(processedFilePath c e f := None) \<and>
           card (dom (files w1) - dom (files w)) \<le> 1 \<and>
           card (dom (files w2) - dom (files w)) \<le> 2 \<and>
           card (dom (files w3) - dom (files w)) \<le> 1 \<and>
           dom (files (snd (handlerUploadVideo c req e w))) \<subseteq> dom (files w)))"
proof -
  from pipeline_trace_files[of c e v f w] obtain evs a where
    t: "trace (snd (upload_pipeline c e v f w)) = trace w @ evs"
    and p: "prefix evs (expected_trace c e v f a)"
    and s: "\<not> isl (fst (upload_pipeline c e v f w)) \<longrightarrow>
        evs = expected_trace c e v f a \<and> aspect_of_output (ffprobe_json e) = Inr a"
    and d: "dom (files (snd (upload_pipeline c e v f w))) = foldl file_step (dom (files w)) evs"
    and g: "ProcessSpawned (ffprobe_args (processedFilePath c e f)) \<in> set evs \<longrightarrow>
        files (snd (upload_pipeline c e v f w)) (filePath c e f) = None"
    by blast
  have l: "\<forall>q. prefix q evs \<longrightarrow> card (live_files q) \<le> 2"
    using p expected_trace_live[of _ c e v f a] by (meson prefix_order.trans)
  have o: "\<forall>p. p \<noteq> filePath c e f \<and> p \<noteq> processedFilePath c e f \<longrightarrow>
      files (snd (upload_pipeline c e v f w)) p = files w p"
    using pipeline_staged_files[where c=c and e=e and v=v and f=f and w=w] by blast
  have k: "\<not> isl (fst (upload_pipeline c e v f w)) \<longrightarrow>
      (\<exists>w1 w2 w3 w4 w5 w6 bs.
         bun_write (stage_error e) (filePath c e f) (file_bytes f) w = Inr w1 \<and>
         files w1 = (files w)(filePath c e f \<mapsto> file_bytes f) \<and>
         processVideoForFastStart e (filePath c e f) w1 =
           (Inr (processedFilePath c e f), w2) \<and>
         files w2 (filePath c e f) = Some (file_bytes f) \<and>
         files w2 (processedFilePath c e f) = Some bs \<and>
         bun_delete (filePath c e f) w2 = Inr w3 \<and>
         files w3 = (files w2)(filePath c e f := None) \<and>
         getVideoAspectRatio e (processedFilePath c e f) w3 = (Inr a, w4) \<and>
         files w4 = files w3 \<and>
         s3_write (s3_error e) (aspect_name a @ ''/'' @ staged_name e f)
           (processedFilePath c e f) (file_type f) w4 = Inr w5 \<and>
         files w5 = files w3 \<and>
         s3 w5 (aspect_name a @ ''/'' @ staged_name e f) = Some (bs, file_type f) \<and>
         updateVideo (updateVideo_error e)
           (v\<lparr>videoURL := Some (s3CfDistribution c @ ''/'' @ aspect_name a @ ''/'' @
                                   staged_name e f)\<rparr>) w5 = Inr w6 \<and>
         files w6 = files w3 \<and>
         bun_delete (processedFilePath c e f) w6 = Inr (snd (upload_pipeline c e v f w)) \<and>
         files (snd (upload_pipeline c e v f w)) =
           (files w3)(processedFilePath c e f := None) \<and>
         card (dom (files w1) - dom (files w)) \<le> 1 \<and>
         card (dom (files w2) - dom (files w)) \<le> 2 \<and>
         card (dom (files w3) - dom (files w)) \<le> 1 \<and>
         dom (files (snd (upload_pipeline c e v f w))) \<subseteq> dom (files w))"
    using s pipeline_worlds[of c e v f w a] by blast
  show ?thesis
    unfolding handler_accepted[OF assms]
    using t p s l d o g k by (intro exI[of _ evs] exI[of _ a] conjI)
qed

theorem pipeline_order_witness:
  "trace (snd (handlerUploadVideo sample_cfg sample_request sample_env sample_world)) =
     [FileWritten ''assets/AAAAAAAAAAAAAAAAAAAAAAAAAAAAAAAAAAAAAAAAAAA.mp4'',
      ProcessSpawned
        [''ffmpeg'', ''-i'', ''assets/AAAAAAAAAAAAAAAAAAAAAAAAAAAAAAAAAAAAAAAAAAA.mp4'',
         ''-movflags'', ''faststart'', ''-map_metadata'', ''0'', ''-codec'', ''copy'', ''-f'', ''mp4'',
         ''assets/AAAAAAAAAAAAAAAAAAAAAAAAAAAAAAAAAAAAAAAAAAA.mp4.processed''],
      FileWritten ''assets/AAAAAAAAAAAAAAAAAAAAAAAAAAAAAAAAAAAAAAAAAAA.mp4.processed'',
      FileDeleted ''assets/AAAAAAAAAAAAAAAAAAAAAAAAAAAAAAAAAAAAAAAAAAA.mp4'',
      ProcessSpawned
        [''ffprobe'', ''-v'', ''error'', ''-select_streams'', ''v:0'', ''-show_entries'',
         ''stream=width,height'', ''-of'', ''json'',
         ''assets/AAAAAAAAAAAAAAAAAAAAAAAAAAAAAAAAAAAAAAAAAAA.mp4.processed''],
      ObjectPut ''portrait/AAAAAAAAAAAAAAAAAAAAAAAAAAAAAAAAAAAAAAAAAAA.mp4'',
      RecordUpdated
        \<lparr>video_id = ''v1'', userID = ''alice'',
         videoURL = Some ''https://cdn.example/portrait/AAAAAAAAAAAAAAAAAAAAAAAAAAAAAAAAAAAAAAAAAAA.mp4''\<rparr>,
      FileDeleted ''assets/AAAAAAAAAAAAAAAAAAAAAAAAAAAAAAAAAAAAAAAAAAA.mp4.processed''] \<and>
   dom (files (snd (handlerUploadVideo sample_cfg sample_request sample_env sample_world))) = {} \<and>
   dom (files (snd (handlerUploadVideo sample_cfg sample_request
       (sample_env\<lparr>ffprobe_exit := Exited 1 [] ''moov atom not found''\<rparr>) sample_world))) =
     {''assets/AAAAAAAAAAAAAAAAAAAAAAAAAAAAAAAAAAAAAAAAAAA.mp4.processed''}"
proof -
  from pipeline_order[OF sample_accepted, of sample_cfg] obtain evs a where
    t: "trace (snd (handlerUploadVideo sample_cfg sample_request sample_env sample_world)) =
          trace sample_world @ evs"
    and s: "\<not> isl (fst (handlerUploadVideo sample_cfg sample_request sample_env sample_world)) \<longrightarrow>
        evs = expected_trace sample_cfg sample_env sample_video sample_upload a \<and>
        aspect_of_output (ffprobe_json sample_env) = Inr a"
    and d: "dom (files (snd (handlerUploadVideo sample_cfg sample_request sample_env sample_world))) =
        foldl file_step (dom (files sample_world)) evs"
    by blast
  from s have evs: "evs = expected_trace sample_cfg sample_env sample_video sample_upload Portrait"
    by (simp add: sample_run sample_env_fields sample_aspect)
  have one: "trace (snd (handlerUploadVideo sample_cfg sample_request sample_env sample_world)) =
     [FileWritten ''assets/AAAAAAAAAAAAAAAAAAAAAAAAAAAAAAAAAAAAAAAAAAA.mp4'',
      ProcessSpawned
        [''ffmpeg'', ''-i'', ''assets/AAAAAAAAAAAAAAAAAAAAAAAAAAAAAAAAAAAAAAAAAAA.mp4'',
         ''-movflags'', ''faststart'', ''-map_metadata'', ''0'', ''-codec'', ''copy'', ''-f'', ''mp4'',
         ''assets/AAAAAAAAAAAAAAAAAAAAAAAAAAAAAAAAAAAAAAAAAAA.mp4.processed''],
      FileWritten ''assets/AAAAAAAAAAAAAAAAAAAAAAAAAAAAAAAAAAAAAAAAAAA.mp4.processed'',
      FileDeleted ''assets/AAAAAAAAAAAAAAAAAAAAAAAAAAAAAAAAAAAAAAAAAAA.mp4'',
      ProcessSpawned
        [''ffprobe'', ''-v'', ''error'', ''-select_streams'', ''v:0'', ''-show_entries'',
         ''stream=width,height'', ''-of'', ''json'',
         ''assets/AAAAAAAAAAAAAAAAAAAAAAAAAAAAAAAAAAAAAAAAAAA.mp4.processed''],
      ObjectPut ''portrait/AAAAAAAAAAAAAAAAAAAAAAAAAAAAAAAAAAAAAAAAAAA.mp4'',
      RecordUpdated
        \<lparr>video_id = ''v1'', userID = ''alice'',
         videoURL = Some ''https://cdn.example/portrait/AAAAAAAAAAAAAAAAAAAAAAAAAAAAAAAAAAAAAAAAAAA.mp4''\<rparr>,
      FileDeleted ''assets/AAAAAAAAAAAAAAAAAAAAAAAAAAAAAAAAAAAAAAAAAAA.mp4.processed'']"
    unfolding t evs
    by (simp add: expected_trace_def sample_paths sample_name sample_env_fields ffmpeg_args_def
        ffprobe_args_def)
      (simp add: sample_world_def sample_video_def sample_cfg_def)
  have two: "dom (files (snd (handlerUploadVideo sample_cfg sample_request sample_env sample_world))) = {}"
    unfolding d evs
    by (auto simp: expected_trace_def sample_env_fields sample_world_def sample_paths)
  let ?e = "sample_env\<lparr>ffprobe_exit := Exited 1 [] ''moov atom not found''\<rparr>"
  have acc: "accepted sample_request ?e sample_world sample_video sample_upload"
    using accepted_env[of ?e sample_env] sample_accepted by simp
  have run: "trace (snd (handlerUploadVideo sample_cfg sample_request ?e sample_world)) =
      trace sample_world @
      [FileWritten (filePath sample_cfg sample_env sample_upload),
       ProcessSpawned (ffmpeg_args (filePath sample_cfg sample_env sample_upload)
         (processedFilePath sample_cfg sample_env sample_upload)),
       FileWritten (processedFilePath sample_cfg sample_env sample_upload),
       FileDeleted (filePath sample_cfg sample_env sample_upload),
       ProcessSpawned (ffprobe_args (processedFilePath sample_cfg sample_env sample_upload))]"
    unfolding handler_accepted[OF acc]
    using paths_env[of ?e sample_env]
    by (simp add: upload_pipeline_outcome sample_env_fields ffmpeg_events_def)
  from pipeline_order[OF acc, of sample_cfg] obtain evs' where
    t': "trace (snd (handlerUploadVideo sample_cfg sample_request ?e sample_world)) =
          trace sample_world @ evs'"
    and d': "dom (files (snd (handlerUploadVideo sample_cfg sample_request ?e sample_world))) =
        foldl file_step (dom (files sample_world)) evs'"
    by blast
  from t' run have evs': "evs' =
      [FileWritten (filePath sample_cfg sample_env sample_upload),
       ProcessSpawned (ffmpeg_args (filePath sample_cfg sample_env sample_upload)
         (processedFilePath sample_cfg sample_env sample_upload)),
       FileWritten (processedFilePath sample_cfg sample_env sample_upload),
       FileDeleted (filePath sample_cfg sample_env sample_upload),
       ProcessSpawned (ffprobe_args (processedFilePath sample_cfg sample_env sample_upload))]"
    by simp
  have three: "dom (files (snd (handlerUploadVideo sample_cfg sample_request ?e sample_world))) =
     {''assets/AAAAAAAAAAAAAAAAAAAAAAAAAAAAAAAAAAAAAAAAAAA.mp4.processed''}"
    unfolding d' evs' by (auto simp: sample_world_def sample_paths)
  from one two three show ?thesis by (intro conjI)
qed

section \<open>The two tolerance bands\<close>

text \<open>
  Claim C8. No ratio (no JavaScript number at all) lies within the tolerance of both
  \<open>16/9\<close> and \<open>9/16\<close>; hence testing landscape first gives the same class as the source's
  order, and a ratio in neither band is \<open>Other\<close>. The double \<open>2634918531985863 / 2^51\<close>
  is equally far from both centres and is classified \<open>Other\<close>.
\<close>

theorem tolerance_bands_disjoint:
  "\<not> (within_tolerance r portrait \<and> within_tolerance r landscape) \<and>
   classify r = classify_landscape_first r \<and>
   (\<not> within_tolerance r portrait \<and> \<not> within_tolerance r landscape \<longrightarrow> classify r = Other) \<and>
   classify (Finite False (2634918531985863 / 2 ^ 51)) = Other \<and>
   2634918531985863 / 2 ^ 51 - 9 / 16 = 2001599834386887 / 2 ^ 50 - (2634918531985863 / 2 ^ 51 :: real)"
proof -
  have m1: "\<not> within_tolerance (Finite False (2634918531985863 / 2 ^ 51)) portrait"
    unfolding portrait_val by (rule far_from_centre) (simp add: with_sign_def)
  have m2: "\<not> within_tolerance (Finite False (2634918531985863 / 2 ^ 51)) landscape"
    unfolding landscape_val by (rule far_from_centre) (simp add: with_sign_def)
  have "classify (Finite False (2634918531985863 / 2 ^ 51)) = Other"
    unfolding classify_def using m1 m2 by simp
  moreover have "2634918531985863 / 2 ^ 51 - 9 / 16 =
      2001599834386887 / 2 ^ 50 - (2634918531985863 / 2 ^ 51 :: real)" by simp
  ultimately show ?thesis
    using bands_disjoint[of r] by (auto simp: classify_def classify_landscape_first_def)
qed

theorem tolerance_bands_disjoint_witness:
  "classify (Finite False 1) = Other \<and> classify_landscape_first (Finite False 1) = Other"
  using tolerance_bands_disjoint[of "Finite False 1"] one_not_portrait one_not_landscape
  by auto

section \<open>Probe output the format check does not cover\<close>

text \<open>
  Claim C9. When \<^verbatim>\<open>ffprobe\<close> exits with code 0: output that is not valid JSON makes
  \<^verbatim>\<open>getVideoAspectRatio\<close> fail with the \<open>SyntaxError\<close> of \<^verbatim>\<open>JSON.parse\<close>, and an
  object whose \<^verbatim>\<open>streams\<close> is an empty array makes it fail with a \<open>TypeError\<close> (the
  read of \<^verbatim>\<open>width\<close> of \<^verbatim>\<open>undefined\<close>); neither is the declared format error.
\<close>

theorem probe_errors_outside_validation:
  assumes "ffprobe_exit e = Exited 0 out err"
  shows "(ffprobe_json e = None \<longrightarrow> fst (getVideoAspectRatio e p w) = Inl SyntaxError) \<and>
     (\<forall>obj. ffprobe_json e = Some (JObject obj) \<and> map_of obj ''streams'' = Some (JArray []) \<longrightarrow>
        fst (getVideoAspectRatio e p w) = Inl TypeError) \<and>
     SyntaxError \<noteq> format_error \<and> TypeError \<noteq> format_error"
  using assms by (auto simp: getVideoAspectRatio_def aspect_of_output_def format_error_def Let_def)

theorem probe_errors_outside_validation_witness:
  "fst (getVideoAspectRatio (sample_env\<lparr>ffprobe_json := None\<rparr>) ''f'' sample_world)
     = Inl SyntaxError \<and>
   fst (getVideoAspectRatio
          (sample_env\<lparr>ffprobe_json := Some (JObject [(''programs'', JArray []), (''streams'', JArray [])])\<rparr>)
          ''f'' sample_world)
     = Inl TypeError"
  using probe_errors_outside_validation[of "sample_env\<lparr>ffprobe_json := None\<rparr>" "[]" "[]"
      "''f''" sample_world]
    probe_errors_outside_validation[of
      "sample_env\<lparr>ffprobe_json := Some (JObject [(''programs'', JArray []), (''streams'', JArray [])])\<rparr>"
      "[]" "[]" "''f''" sample_world]
  by (simp add: sample_env_fields)

section \<open>The size check\<close>

text \<open>
  Claim C10. The maximum is \<^verbatim>\<open>1 << 30\<close>, that is 1073741824 bytes, and the comparison is
  strict: for a request that passes the checks before it and carries a file, the handler
  answers with the oversize error exactly when the file is larger than the maximum. A file
  of exactly 1073741824 bytes passes the size check.
\<close>

theorem size_check_strict:
  assumes "videoId req = Some vid" and "vid \<noteq> []" and "auth e = Inr uid"
    and "db w vid = Some v" and "userID v = uid"
    and "formData req = Inr form" and "form ''video'' = Some (FormFile f)"
  shows "MAX_UPLOAD_SIZE = 1073741824 \<and>
         (fst (handlerUploadVideo c req e w) =
            Inl (BadRequestError ''Thumbnail file size is too big.'')
          \<longleftrightarrow> 1073741824 < file_size f)"
proof (cases "1073741824 < file_size f")
  case True
  then show ?thesis
    using assms by (simp add: handlerUploadVideo_def getVideo_def MAX_UPLOAD_SIZE_val)
next
  case False
  show ?thesis
  proof (cases "file_type f = ''video/mp4''")
    case True
    with False assms have "accepted req e w v f"
      by (simp add: accepted_def getVideo_def MAX_UPLOAD_SIZE_val)
    then show ?thesis
      using False pipeline_not_bad_request[of c e v f w]
      by (simp add: handler_accepted MAX_UPLOAD_SIZE_val)
  next
    case False
    then show ?thesis
      using \<open>\<not> 1073741824 < file_size f\<close> assms
      by (simp add: handlerUploadVideo_def getVideo_def MAX_UPLOAD_SIZE_val)
  qed
qed

theorem size_check_strict_witness:
  "fst (handlerUploadVideo sample_cfg
          \<lparr>videoId = Some ''v1'',
           formData = Inr [''video'' \<mapsto> FormFile \<lparr>file_type = ''video/mp4'',
                                                     file_bytes = replicate 1073741824 0\<rparr>]\<rparr>
          sample_env sample_world)
     \<noteq> Inl (BadRequestError ''Thumbnail file size is too big.'') \<and>
   fst (handlerUploadVideo sample_cfg
          \<lparr>videoId = Some ''v1'',
           formData = Inr [''video'' \<mapsto> FormFile \<lparr>file_type = ''video/mp4'',
                                                     file_bytes = replicate 1073741825 0\<rparr>]\<rparr>
          sample_env sample_world)
     = Inl (BadRequestError ''Thumbnail file size is too big.'')"
  using size_check_strict[of
      "\<lparr>videoId = Some ''v1'',
        formData = Inr [''video'' \<mapsto> FormFile \<lparr>file_type = ''video/mp4'',
                                                  file_bytes = replicate 1073741824 0\<rparr>]\<rparr>"
      "''v1''" sample_env "''alice''" sample_world sample_video
      "[''video'' \<mapsto> FormFile \<lparr>file_type = ''video/mp4'',
                                      file_bytes = replicate 1073741824 0\<rparr>]"
      "\<lparr>file_type = ''video/mp4'', file_bytes = replicate 1073741824 0\<rparr>" sample_cfg]
    size_check_strict[of
      "\<lparr>videoId = Some ''v1'',
        formData = Inr [''video'' \<mapsto> FormFile \<lparr>file_type = ''video/mp4'',
                                                  file_bytes = replicate 1073741825 0\<rparr>]\<rparr>"
      "''v1''" sample_env "''alice''" sample_world sample_video
      "[''video'' \<mapsto> FormFile \<lparr>file_type = ''video/mp4'',
                                      file_bytes = replicate 1073741825 0\<rparr>]"
      "\<lparr>file_type = ''video/mp4'', file_bytes = replicate 1073741825 0\<rparr>" sample_cfg]
  by (simp add: sample_env_def sample_world_def sample_video_def file_size_def)

end
